theory Spec2Isabelle
  imports Main "HOL-Library.Word"
begin

section \<open>Python text and bytes\<close>

text \<open>
  A Python \<open>str\<close> is a sequence of Unicode code points, a \<open>bytes\<close> object a sequence
  of octets.  Code points are natural numbers, so that characters beyond Latin-1 (which
  \<open>create_pdf\<close> replaces) are values of the model; \<open>lit\<close> turns an ASCII literal
  into such a string.
\<close>

type_synonym pystr = "nat list"
type_synonym byte = "8 word"

definition lit :: "string \<Rightarrow> pystr" where
  "lit s = map of_char s"

definition NL :: nat where
  "NL = 10"

text \<open>
  \<open>str.isspace\<close>, \<open>str.strip()\<close> and the regular-expression class \<open>\s\<close> all use the
  interpreter's one table of Unicode whitespace: U+0009..U+000D, U+001C..U+0020, U+0085,
  U+00A0, U+1680, U+2000..U+200A, U+2028, U+2029, U+202F, U+205F, U+3000.
\<close>

definition isspace :: "nat \<Rightarrow> bool" where
  "isspace c \<longleftrightarrow>
     (9 \<le> c \<and> c \<le> 13) \<or> (28 \<le> c \<and> c \<le> 32) \<or> c = 133 \<or> c = 160 \<or> c = 5760 \<or>
     (8192 \<le> c \<and> c \<le> 8202) \<or> c = 8232 \<or> c = 8233 \<or> c = 8239 \<or> c = 8287 \<or> c = 12288"

text \<open>
  The class \<open>\d\<close> of a \<open>str\<close> pattern is the Unicode decimal digits (category Nd).
  They come in runs of ten, \<open>0\<close> to \<open>9\<close>; \<open>decimal_zeros\<close> lists the code point of the
  zero of every run (Unicode 14, as shipped with CPython 3.11), ASCII \<open>0\<close> first.
\<close>

definition decimal_zeros :: "nat list" where
  "decimal_zeros =
     [48, 1632, 1776, 1984, 2406, 2534, 2662, 2790, 2918, 3046, 3174, 3302, 3430, 3558,
      3664, 3792, 3872, 4160, 4240, 6112, 6160, 6470, 6608, 6784, 6800, 6992, 7088, 7232,
      7248, 42528, 43216, 43264, 43472, 43504, 43600, 44016, 65296, 66720, 68912, 69734,
      69872, 69942, 70096, 70384, 70736, 70864, 71248, 71360, 71472, 71904, 72016, 72784,
      73040, 73120, 92768, 92864, 93008, 120782, 120792, 120802, 120812, 120822, 123200,
      123632, 125264, 130032]"

definition isdecimal :: "nat \<Rightarrow> bool" where
  "isdecimal c \<longleftrightarrow> list_ex (\<lambda>z. z \<le> c \<and> c < z + 10) decimal_zeros"

text \<open>\<open>s.strip()\<close>: whitespace removed at both ends.\<close>

definition strip :: "pystr \<Rightarrow> pystr" where
  "strip s = rev (dropWhile isspace (rev (dropWhile isspace s)))"

text \<open>
  \<open>s.split(sep)\<close> for a one-character separator: the pieces between the separators, empty
  pieces included, so that the empty string gives one empty piece.
\<close>

fun split :: "nat \<Rightarrow> pystr \<Rightarrow> pystr list" where
  "split sep [] = [[]]"
| "split sep (c # cs) =
     (if c = sep then [] # split sep cs
      else (case split sep cs of
              [] \<Rightarrow> [[c]]
            | p # ps \<Rightarrow> (c # p) # ps))"

text \<open>\<open>sep.join(parts)\<close>.\<close>

fun join :: "pystr \<Rightarrow> pystr list \<Rightarrow> pystr" where
  "join sep [] = []"
| "join sep [p] = p"
| "join sep (p # q # ps) = p @ sep @ join sep (q # ps)"

text \<open>\<open>str(n)\<close> for a non-negative integer: its decimal digits.\<close>

fun decimal :: "nat \<Rightarrow> pystr" where
  "decimal n = (if n < 10 then [48 + n] else decimal (n div 10) @ [48 + n mod 10])"

declare decimal.simps [simp del]

section \<open>The numbered-list pattern\<close>

text \<open>
  \<open>re.match(r'^\d+\.\s*(.+)$', s)\<close>, returning group 1.  The engine backtracks, and the
  model follows its order of attempts:
  \<^item> \<open>\d+\<close> takes the longest run of decimal digits, which must not be empty; giving a
    digit back cannot help, since the next character would be a digit and not the period;
  \<^item> \<open>\.\<close> wants a period (code point 46) next;
  \<^item> \<open>\s*\<close> first takes the whole run of whitespace, then one character less at each
    retry (\<open>group_from\<close>, with \<open>group_at\<close> for the attempt at one position);
  \<^item> \<open>(.+)\<close> takes the longest non-empty run without a newline, and \<open>$\<close> holds at the
    end of the string or before a newline that ends the string; a shorter run for
    \<open>.+\<close> stops before a character that is not a newline, where \<open>$\<close> fails.
\<close>

definition group_at :: "pystr \<Rightarrow> pystr option" where
  "group_at t =
     (let g = takeWhile (\<lambda>c. c \<noteq> NL) t;
          rest = dropWhile (\<lambda>c. c \<noteq> NL) t
      in if g \<noteq> [] \<and> (rest = [] \<or> rest = [NL]) then Some g else None)"

fun group_from :: "nat \<Rightarrow> pystr \<Rightarrow> pystr option" where
  "group_from 0 r = group_at r"
| "group_from (Suc j) r =
     (case group_at (drop (Suc j) r) of
        Some g \<Rightarrow> Some g
      | None \<Rightarrow> group_from j r)"

definition match_numbered :: "pystr \<Rightarrow> pystr option" where
  "match_numbered s =
     (if takeWhile isdecimal s = [] then None
      else (case dropWhile isdecimal s of
              [] \<Rightarrow> None
            | c # r \<Rightarrow>
                if c \<noteq> 46 then None
                else group_from (length (takeWhile isspace r)) r))"

section \<open>Resume-Builder: the skill list of a response\<close>

definition MAX_SKILLS :: nat where
  "MAX_SKILLS = 10"

text \<open>
  The loop of \<open>extract_skills\<close> over the lines of the response: \<open>skills\<close> is the list
  built so far; a line is appended when its stripped text matches and fewer than
  \<open>MAX_SKILLS\<close> skills are held.
\<close>

fun scan_lines :: "pystr list \<Rightarrow> pystr list \<Rightarrow> pystr list" where
  "scan_lines [] skills = skills"
| "scan_lines (line # lines) skills =
     scan_lines lines
       (case match_numbered (strip line) of
          Some g \<Rightarrow> if length skills < MAX_SKILLS then skills @ [g] else skills
        | None \<Rightarrow> skills)"

section \<open>Resume-Builder: the generation client\<close>

text \<open>
  The hosted model is outside the program.  A \<open>service\<close> says what
  \<open>model.generate_content(prompt)\<close> does at the \<open>k\<close>-th request: it yields a response
  with the given \<open>text\<close>, or the request (or reading \<open>response.text\<close>) raises.  The
  \<open>world\<close> records what the program did to its surroundings: the prompts sent to the
  service, in order, and the messages put on the page with \<open>st.warning\<close> and
  \<open>st.error\<close>.  Log records written through \<open>logger\<close> are not modelled.
\<close>

datatype response = Text pystr | Raises

type_synonym service = "nat \<Rightarrow> pystr \<Rightarrow> response"

datatype ui_msg = Warning pystr | Error pystr

record world =
  sent :: "pystr list"
  shown :: "ui_msg list"

definition st_warning :: "pystr \<Rightarrow> world \<Rightarrow> world" where
  "st_warning m w = w\<lparr>shown := shown w @ [Warning m]\<rparr>"

definition st_error :: "pystr \<Rightarrow> world \<Rightarrow> world" where
  "st_error m w = w\<lparr>shown := shown w @ [Error m]\<rparr>"

text \<open>\<open>ResumeBuilder._sanitize_input\<close>.\<close>

definition sanitize_input :: "pystr \<Rightarrow> pystr" where
  "sanitize_input text = (if text = [] then [] else strip text)"

text \<open>
  \<open>ResumeBuilder._generate_content\<close>: one request; an empty text and an exception both
  give \<open>None\<close>, the exception with a message on the page.
\<close>

definition generate_content :: "service \<Rightarrow> pystr \<Rightarrow> world \<Rightarrow> pystr option \<times> world" where
  "generate_content svc prompt w =
     (let w' = w\<lparr>sent := sent w @ [prompt]\<rparr>
      in case svc (length (sent w)) prompt of
           Text t \<Rightarrow> if t = [] then (None, w') else (Some t, w')
         | Raises \<Rightarrow>
             (None,
              st_error (lit ''An error occurred while generating content. Please try again.'') w'))"

section \<open>Resume-Builder: skill extraction and document synthesis\<close>

text \<open>
  The three methods return \<open>None\<close> on every failure.  The model keeps the reason of each
  \<open>return None\<close> as a \<open>failure\<close>, so that the branch taken can be named; \<open>returned\<close> is
  the value the Python caller holds, where the failures are one \<open>None\<close>.
\<close>

datatype failure = EmptyInput | MissingInput | GenerationError | NoSkillsFound

definition returned :: "failure + 'a \<Rightarrow> 'a option" where
  "returned r = (case r of Inl _ \<Rightarrow> None | Inr v \<Rightarrow> Some v)"

text \<open>The prompt of \<open>extract_skills\<close>, lines 84 to 97, with \<open>MAX_SKILLS\<close> written as \<open>10\<close>.\<close>

definition skills_prompt :: "pystr \<Rightarrow> pystr" where
  \<open>skills_prompt sanitized_jd =
     join [NL]
      [[],
       lit ''        Analyze the following job description and extract exactly the top '' @ decimal MAX_SKILLS @ lit '' most critical skills '',
       lit ''        that candidates must possess, ordered by importance. Focus on:'',
       lit ''        '',
       lit ''        1. Technical/hard skills specific to the role'',
       lit ''        2. Industry-specific knowledge'',
       lit ''        3. Key soft skills mentioned'',
       lit ''        4. Tools/technologies required'',
       lit ''        '',
       lit ''        Present ONLY as a numbered list (1-'' @ decimal MAX_SKILLS @ lit '') without additional commentary.'',
       lit ''        '',
       lit ''        Job Description:'',
       lit ''        '' @ sanitized_jd,
       lit ''        '']\<close>

text \<open>
  \<open>ResumeBuilder.extract_skills\<close>.  The returns at lines 82, 101 and 110 are
  \<open>EmptyInput\<close>, \<open>GenerationError\<close> and \<open>NoSkillsFound\<close>.
\<close>

definition extract_skills ::
  "service \<Rightarrow> pystr \<Rightarrow> world \<Rightarrow> (failure + pystr list) \<times> world" where
  "extract_skills svc job_description w =
     (let sanitized_jd = sanitize_input job_description
      in if sanitized_jd = [] then (Inl EmptyInput, w)
         else (case generate_content svc (skills_prompt sanitized_jd) w of
                 (None, w') \<Rightarrow> (Inl GenerationError, w')
               | (Some result, w') \<Rightarrow>
                   if result = [] then (Inl GenerationError, w')
                   else (let skills = scan_lines (split NL result) []
                         in (if skills = [] then Inl NoSkillsFound else Inr skills, w'))))"

text \<open>The prompt of \<open>generate_custom_resume\<close>, lines 120 to 161.\<close>

definition resume_prompt :: "pystr \<Rightarrow> pystr \<Rightarrow> pystr list \<Rightarrow> pystr" where
  \<open>resume_prompt resume job_description selected_skills =
     join [NL]
      [[],
       lit ''        Role: Expert Resume Writer specializing in ATS-optimized resumes'',
       lit ''        '',
       lit ''        Task: Transform this resume to perfectly match the target job by emphasizing these '' @ decimal (length selected_skills) @ lit '' key skills:'',
       lit ''        '' @ join (lit '', '') selected_skills,
       lit ''        '',
       lit ''        Guidelines:'',
       lit ''        1. STRUCTURE: Use standard resume sections (Summary, Skills, Experience, Education)'',
       lit ''        2. RELEVANCE: Prioritize experiences demonstrating selected skills'',
       lit ''        3. QUANTIFICATION: Add metrics to achievements where possible'',
       lit ''        4. KEYWORDS: Mirror language from the job description'',
       lit ''        5. CONCISENESS: Keep to 1-2 pages worth of content'',
       lit ''        6. FORMATTING: Use clean, professional formatting with bullet points'',
       lit ''        '',
       lit ''        Original Resume:'',
       lit ''        '' @ sanitize_input resume,
       lit ''        '',
       lit ''        Target Job Description:'',
       lit ''        '' @ sanitize_input job_description,
       lit ''        '',
       lit ''        Generate the optimized resume following these exact sections:'',
       lit ''        '',
       lit ''        [Professional Summary]'',
       lit ''        - 3-4 sentence career overview highlighting top qualifications'',
       lit ''        '',
       lit ''        [Key Skills]'',
       lit ''        - 6-8 bullet points mixing selected skills and job keywords'',
       lit ''        '',
       lit ''        [Professional Experience]'',
       lit ''        - For each role:'',
       lit ''          - Company, Job Title, Dates'',
       lit ''          - 3-5 bullet points emphasizing relevant achievements'',
       lit ''          - Start bullets with strong action verbs'',
       lit ''          - Include metrics (%, $, numbers) where possible'',
       lit ''        '',
       lit ''        [Education]'',
       lit ''        - Degree, Institution, Year'',
       lit ''        - Relevant coursework if entry-level'',
       lit ''        '',
       lit ''        [Optional Sections]'',
       lit ''        - Certifications, Projects, or Technical Skills if space allows'',
       lit ''        '']\<close>

text \<open>\<open>ResumeBuilder.generate_custom_resume\<close>; \<open>all([...])\<close> wants each argument non-empty.\<close>

definition generate_custom_resume ::
  "service \<Rightarrow> pystr \<Rightarrow> pystr \<Rightarrow> pystr list \<Rightarrow> world \<Rightarrow> (failure + pystr) \<times> world" where
  "generate_custom_resume svc resume job_description selected_skills w =
     (if resume = [] \<or> job_description = [] \<or> selected_skills = [] then (Inl MissingInput, w)
      else (case generate_content svc (resume_prompt resume job_description selected_skills) w of
              (None, w') \<Rightarrow> (Inl GenerationError, w')
            | (Some doc, w') \<Rightarrow> (Inr doc, w')))"

text \<open>The prompt of \<open>generate_cover_letter\<close>, lines 173 to 216.\<close>

definition cover_letter_prompt :: "pystr \<Rightarrow> pystr \<Rightarrow> pystr list \<Rightarrow> pystr \<Rightarrow> pystr \<Rightarrow> pystr" where
  \<open>cover_letter_prompt resume job_description selected_skills company_name recipient_name =
     join [NL]
      [[],
       lit ''        Role: Expert Cover Letter Writer specializing in ATS-optimized cover letters'',
       lit ''        '',
       lit ''        Task: Craft a compelling cover letter to perfectly match the target job by emphasizing these '' @ decimal (length selected_skills) @ lit '' key skills:'',
       lit ''        '' @ join (lit '', '') selected_skills,
       lit ''        '',
       lit ''        Guidelines:'',
       lit ''        1. STRUCTURE: Use standard cover letter format (Introduction, Body, Conclusion)'',
       lit ''        2. RELEVANCE: Prioritize experiences demonstrating selected skills'',
       lit ''        3. QUANTIFICATION: Add metrics to achievements where possible'',
       lit ''        4. KEYWORDS: Mirror language from the job description'',
       lit ''        5. CONCISENESS: Keep to 1 page worth of content'',
       lit ''        6. FORMATTING: Use clean, professional formatting with paragraphs'',
       lit ''        7. PERSONALIZATION: Address the recipient by name and mention the company name'',
       lit ''        '',
       lit ''        Original Resume:'',
       lit ''        '' @ sanitize_input resume,
       lit ''        '',
       lit ''        Target Job Description:'',
       lit ''        '' @ sanitize_input job_description,
       lit ''        '',
       lit ''        Company Name:'',
       lit ''        '' @ sanitize_input company_name,
       lit ''        '',
       lit ''        Recipient Name:'',
       lit ''        '' @ sanitize_input recipient_name,
       lit ''        '',
       lit ''        Generate the optimized cover letter following these exact sections:'',
       lit ''        '',
       lit ''        [Introduction]'',
       lit ''        - Express enthusiasm for the role and company'',
       lit ''        - Briefly introduce yourself and highlight your key qualifications'',
       lit ''        '',
       lit ''        [Body]'',
       lit ''        - 2-3 paragraphs detailing relevant experiences and achievements'',
       lit ''        - Emphasize how your skills align with the job requirements'',
       lit ''        - Use specific examples and metrics to showcase your impact'',
       lit ''        '',
       lit ''        [Conclusion]'',
       lit ''        - Reiterate your interest and enthusiasm'',
       lit ''        - Thank the recipient for their time and consideration'',
       lit ''        - Express your eagerness to discuss your application further'',
       lit ''        '',
       lit ''        '']\<close>

text \<open>\<open>ResumeBuilder.generate_cover_letter\<close>.\<close>

definition generate_cover_letter ::
  "service \<Rightarrow> pystr \<Rightarrow> pystr \<Rightarrow> pystr list \<Rightarrow> pystr \<Rightarrow> pystr \<Rightarrow> world \<Rightarrow>
     (failure + pystr) \<times> world" where
  "generate_cover_letter svc resume job_description selected_skills company_name recipient_name w =
     (if resume = [] \<or> job_description = [] \<or> selected_skills = [] \<or> company_name = [] \<or>
         recipient_name = []
      then (Inl MissingInput, w)
      else (case generate_content svc
                   (cover_letter_prompt resume job_description selected_skills company_name
                      recipient_name) w of
              (None, w') \<Rightarrow> (Inl GenerationError, w')
            | (Some doc, w') \<Rightarrow> (Inr doc, w')))"

section \<open>Document export\<close>

text \<open>
  \<open>text.encode('latin-1', 'replace')\<close> writes one byte for every character: the code
  point itself below 256, and \<open>?\<close> (63) for any other.  \<open>bs.decode('latin-1')\<close> reads
  every byte as the code point of the same value.  \<open>s.encode("latin-1")\<close>, without an
  error handler, raises \<open>UnicodeEncodeError\<close> when a character has no byte.
\<close>

datatype exn = UnicodeEncodeError | LibraryError

definition encode_latin1_replace :: "pystr \<Rightarrow> byte list" where
  "encode_latin1_replace s = map (\<lambda>c. if c < 256 then of_nat c else 63) s"

definition decode_latin1 :: "byte list \<Rightarrow> pystr" where
  "decode_latin1 bs = map unat bs"

definition encode_latin1 :: "pystr \<Rightarrow> exn + byte list" where
  "encode_latin1 s =
     (if list_all (\<lambda>c. c < 256) s then Inr (map of_nat s) else Inl UnicodeEncodeError)"

text \<open>
  The PDF library is outside the program; the program uses three of its operations on a
  document \<open>'p\<close>, each of which may raise:
  \<^item> \<open>start n\<close> is \<open>FPDF()\<close>, \<open>add_page()\<close> and \<open>set_font("Arial", size=n)\<close>;
  \<^item> \<open>multi_cell p h txt\<close> is \<open>pdf.multi_cell(0, h, txt)\<close>;
  \<^item> \<open>output_S p\<close> is \<open>pdf.output(dest="S")\<close>, a \<open>str\<close>.
\<close>

record 'p fpdf =
  start :: "nat \<Rightarrow> exn + 'p"
  multi_cell :: "'p \<Rightarrow> nat \<Rightarrow> pystr \<Rightarrow> exn + 'p"
  output_S :: "'p \<Rightarrow> exn + pystr"

text \<open>The loop \<open>for line in lines: pdf.multi_cell(0, h, line)\<close>; an exception ends it.\<close>

fun cells :: "'p fpdf \<Rightarrow> nat \<Rightarrow> pystr list \<Rightarrow> 'p \<Rightarrow> exn + 'p" where
  "cells lib h [] p = Inr p"
| "cells lib h (line # lines) p =
     (case multi_cell lib p h line of
        Inl e \<Rightarrow> Inl e
      | Inr p' \<Rightarrow> cells lib h lines p')"

text \<open>
  \<open>ResumeBuilder.create_pdf\<close>: the whole body is in \<open>try\<close>, and \<open>except Exception\<close>
  returns \<open>None\<close>.
\<close>

definition create_pdf :: "'p fpdf \<Rightarrow> pystr \<Rightarrow> byte list option" where
  "create_pdf lib resume_text =
     (case start lib 11 of
        Inl e \<Rightarrow> None
      | Inr pdf \<Rightarrow>
          (let text = decode_latin1 (encode_latin1_replace resume_text)
           in case cells lib 5 (split NL text) pdf of
                Inl e \<Rightarrow> None
              | Inr pdf' \<Rightarrow>
                  (case output_S lib pdf' of
                     Inl e \<Rightarrow> None
                   | Inr s \<Rightarrow>
                       (case encode_latin1 s of
                          Inl e \<Rightarrow> None
                        | Inr bs \<Rightarrow> Some bs))))"

text \<open>
  Nutrition-Planner, \<open>main\<close>, lines 330 to 334: the meal plan goes to \<open>multi_cell\<close> as it
  is, in one piece, and nothing catches an exception.
\<close>

definition meal_plan_pdf :: "'p fpdf \<Rightarrow> pystr \<Rightarrow> exn + byte list" where
  "meal_plan_pdf lib meal_plan_text =
     (case start lib 12 of
        Inl e \<Rightarrow> Inl e
      | Inr pdf \<Rightarrow>
          (case multi_cell lib pdf 10 meal_plan_text of
             Inl e \<Rightarrow> Inl e
           | Inr pdf' \<Rightarrow>
               (case output_S lib pdf' of
                  Inl e \<Rightarrow> Inl e
                | Inr s \<Rightarrow> encode_latin1 s)))"

text \<open>
  A small library to run the two exports on: a document is the text of its page, and, as
  with the built-in fonts of PyFPDF, the page is encoded as Latin-1 when the document is
  output, which raises on any other character.
\<close>

definition page_fpdf :: "pystr fpdf" where
  "page_fpdf =
     \<lparr>start = (\<lambda>n. Inr []),
      multi_cell = (\<lambda>p h txt. Inr (p @ txt @ [NL])),
      output_S = (\<lambda>p. if list_all (\<lambda>c. c < 256) p then Inr p else Inl UnicodeEncodeError)\<rparr>"

subsection \<open>Base64 and the download link\<close>

text \<open>
  \<open>base64.b64encode\<close> (RFC 4648, standard alphabet): three bytes give four characters of
  six bits each; one or two bytes left over give two or three characters and the padding
  \<open>=\<close> (61).  \<open>b64char\<close> is the alphabet \<open>A-Z a-z 0-9 + /\<close>.
\<close>

definition b64char :: "nat \<Rightarrow> byte" where
  "b64char k =
     of_nat (if k < 26 then 65 + k
             else if k < 52 then 97 + (k - 26)
             else if k < 62 then 48 + (k - 52)
             else if k = 62 then 43 else 47)"

fun b64encode :: "byte list \<Rightarrow> byte list" where
  "b64encode [] = []"
| "b64encode [a] =
     [b64char (unat a div 4), b64char (unat a mod 4 * 16), 61, 61]"
| "b64encode [a, b] =
     [b64char (unat a div 4), b64char (unat a mod 4 * 16 + unat b div 16),
      b64char (unat b mod 16 * 4), 61]"
| "b64encode (a # b # c # rest) =
     b64char (unat a div 4) # b64char (unat a mod 4 * 16 + unat b div 16) #
     b64char (unat b mod 16 * 4 + unat c div 64) # b64char (unat c mod 64) #
     b64encode rest"

text \<open>
  \<open>bs.decode()\<close> on the output of \<open>b64encode\<close>: the bytes are ASCII (lemma
  \<open>b64encode_ascii\<close>), and UTF-8 reads an ASCII byte as the code point of the same value.
\<close>

definition decode_ascii :: "byte list \<Rightarrow> pystr" where
  "decode_ascii bs = map unat bs"

text \<open>\<open>create_download_link\<close>, the same function in both programs.\<close>

definition create_download_link :: "byte list \<Rightarrow> pystr \<Rightarrow> pystr" where
  \<open>create_download_link file_data filename =
     (let b64 = decode_ascii (b64encode file_data)
      in lit ''<a href="data:application/octet-stream;base64,'' @ b64 @
         lit ''" download="'' @ filename @ lit ''">Download '' @ filename @ lit ''</a>'')\<close>

text \<open>
  The reader of the link: the payload of the data URI is what stands between the marker
  \<open>base64,\<close> and the closing quote (34) of the \<open>href\<close>, and a Base64 decoder turns it
  back into bytes.  \<open>b64decode\<close> decodes RFC 4648 text in groups of four characters and
  is \<open>None\<close> on any other text.
\<close>

definition href_payload :: "pystr \<Rightarrow> pystr option" where
  \<open>href_payload link =
     (let marker = lit ''<a href="data:application/octet-stream;base64,''
      in if take (length marker) link = marker
         then Some (takeWhile (\<lambda>c. c \<noteq> 34) (drop (length marker) link))
         else None)\<close>

definition b64value :: "nat \<Rightarrow> nat option" where
  "b64value c =
     (if 65 \<le> c \<and> c \<le> 90 then Some (c - 65)
      else if 97 \<le> c \<and> c \<le> 122 then Some (c - 97 + 26)
      else if 48 \<le> c \<and> c \<le> 57 then Some (c - 48 + 52)
      else if c = 43 then Some 62
      else if c = 47 then Some 63
      else None)"

definition byte1 :: "nat \<Rightarrow> nat \<Rightarrow> byte" where
  "byte1 i1 i2 = of_nat (i1 * 4 + i2 div 16)"

definition byte2 :: "nat \<Rightarrow> nat \<Rightarrow> byte" where
  "byte2 i2 i3 = of_nat (i2 mod 16 * 16 + i3 div 4)"

definition byte3 :: "nat \<Rightarrow> nat \<Rightarrow> byte" where
  "byte3 i3 i4 = of_nat (i3 mod 4 * 64 + i4)"

fun b64decode :: "pystr \<Rightarrow> byte list option" where
  "b64decode [] = Some []"
| "b64decode (c1 # c2 # c3 # c4 # rest) =
     (if rest = [] \<and> c4 = 61 then
        (if c3 = 61 then
           (case (b64value c1, b64value c2) of
              (Some i1, Some i2) \<Rightarrow> Some [byte1 i1 i2]
            | _ \<Rightarrow> None)
         else
           (case (b64value c1, b64value c2, b64value c3) of
              (Some i1, Some i2, Some i3) \<Rightarrow> Some [byte1 i1 i2, byte2 i2 i3]
            | _ \<Rightarrow> None))
      else
        (case (b64value c1, b64value c2, b64value c3, b64value c4) of
           (Some i1, Some i2, Some i3, Some i4) \<Rightarrow>
             (case b64decode rest of
                Some bs \<Rightarrow> Some (byte1 i1 i2 # byte2 i2 i3 # byte3 i3 i4 # bs)
              | None \<Rightarrow> None)
         | _ \<Rightarrow> None))"
| "b64decode _ = None"

section \<open>Resume-Builder: the page and its session\<close>

text \<open>
  \<open>st.session_state\<close> of \<open>main_ui\<close>.  \<open>skills\<close> holds what \<open>extract_skills\<close> returned,
  a list or \<open>None\<close>; the three keys written only after a generation are \<open>None\<close> while
  absent.  \<open>fresh\<close> is the state after lines 252 to 257 in a new session.
\<close>

record session =
  skills :: "pystr list option"
  resume_generated :: bool
  cover_letter_generated :: bool
  custom_resume :: "pystr option"
  custom_cover_letter :: "pystr option"
  selected_skills :: "pystr list option"

definition fresh :: session where
  "fresh =
     \<lparr>skills = Some [], resume_generated = False, cover_letter_generated = False,
      custom_resume = None, custom_cover_letter = None, selected_skills = None\<rparr>"

text \<open>
  One run of the script is started by the user: \<open>clicked\<close> is the button pressed (at
  most one is true in a run), the other fields are the values the widgets give in that
  run; \<open>skill_box i\<close> is the checkbox with key \<open>skill_i\<close>.
\<close>

datatype button =
  NoButton | AnalyzeResume | GenerateResume | AnalyzeCoverLetter | GenerateCoverLetter

record widgets =
  clicked :: button
  resume_text :: pystr
  job_description :: pystr
  skill_box :: "nat \<Rightarrow> bool"
  cover_letter_resume_text :: pystr
  cover_letter_job_description :: pystr
  company_name :: pystr
  recipient_name :: pystr
  cover_letter_skill_box :: "nat \<Rightarrow> bool"

text \<open>\<open>if st.session_state.skills\<close>: a list with an element.\<close>

definition truthy :: "'a list option \<Rightarrow> bool" where
  "truthy v = (case v of None \<Rightarrow> False | Some xs \<Rightarrow> xs \<noteq> [])"

text \<open>The selection loop of Step 2: the skills whose checkbox is ticked, in list order.\<close>

definition ticked :: "(nat \<Rightarrow> bool) \<Rightarrow> pystr list \<Rightarrow> pystr list" where
  "ticked box sk = map snd (filter (\<lambda>(i, skill). box i) (enumerate 0 sk))"

text \<open>Resume tab, lines 297 to 307: the button \<open>Analyze Job Requirements\<close>.\<close>

definition analyze_resume :: "service \<Rightarrow> widgets \<Rightarrow> session \<times> world \<Rightarrow> session \<times> world" where
  "analyze_resume svc ui sw =
     (case sw of (s, w) \<Rightarrow>
        if resume_text ui = [] \<or> job_description ui = []
        then (s, st_warning (lit ''Please provide both resume and job description'') w)
        else (case extract_skills svc (job_description ui) w of
                (r, w') \<Rightarrow>
                  (let s' = s\<lparr>skills := returned r\<rparr>
                   in if \<not> truthy (skills s')
                      then (s', st_error (lit ''Failed to extract skills. Please try again.'') w')
                      else (s'\<lparr>resume_generated := False\<rparr>, w'))))"

text \<open>Resume tab, lines 316 to 337: the selection and the button \<open>Generate Tailored Resume\<close>.\<close>

definition generate_resume :: "service \<Rightarrow> widgets \<Rightarrow> session \<times> world \<Rightarrow> session \<times> world" where
  "generate_resume svc ui sw =
     (case sw of (s, w) \<Rightarrow>
        (let selected = ticked (skill_box ui) (case skills s of None \<Rightarrow> [] | Some sk \<Rightarrow> sk)
         in if length selected < 3
            then (s, st_warning (lit ''Please select at least 3 skills for best results'') w)
            else (case generate_custom_resume svc (resume_text ui) (job_description ui) selected w of
                    (Inl e, w') \<Rightarrow> (s, w')
                  | (Inr doc, w') \<Rightarrow>
                      if doc = [] then (s, w')
                      else (s\<lparr>custom_resume := Some doc, resume_generated := True,
                              selected_skills := Some selected\<rparr>, w'))))"

definition resume_tab :: "service \<Rightarrow> widgets \<Rightarrow> session \<times> world \<Rightarrow> session \<times> world" where
  "resume_tab svc ui sw =
     (let sw1 = (if clicked ui = AnalyzeResume then analyze_resume svc ui sw else sw)
      in if truthy (skills (fst sw1)) \<and> clicked ui = GenerateResume
         then generate_resume svc ui sw1
         else sw1)"

text \<open>Cover-letter tab, lines 390 to 400.\<close>

definition analyze_cover_letter ::
  "service \<Rightarrow> widgets \<Rightarrow> session \<times> world \<Rightarrow> session \<times> world" where
  "analyze_cover_letter svc ui sw =
     (case sw of (s, w) \<Rightarrow>
        if cover_letter_resume_text ui = [] \<or> cover_letter_job_description ui = [] \<or>
           company_name ui = [] \<or> recipient_name ui = []
        then (s, st_warning (lit ''Please provide all required information'') w)
        else (case extract_skills svc (cover_letter_job_description ui) w of
                (r, w') \<Rightarrow>
                  (let s' = s\<lparr>skills := returned r\<rparr>
                   in if \<not> truthy (skills s')
                      then (s', st_error (lit ''Failed to extract skills. Please try again.'') w')
                      else (s'\<lparr>cover_letter_generated := False\<rparr>, w'))))"

text \<open>Cover-letter tab, lines 409 to 432.\<close>

definition generate_cover ::
  "service \<Rightarrow> widgets \<Rightarrow> session \<times> world \<Rightarrow> session \<times> world" where
  "generate_cover svc ui sw =
     (case sw of (s, w) \<Rightarrow>
        (let selected =
               ticked (cover_letter_skill_box ui) (case skills s of None \<Rightarrow> [] | Some sk \<Rightarrow> sk)
         in if length selected < 3
            then (s, st_warning (lit ''Please select at least 3 skills for best results'') w)
            else (case generate_cover_letter svc (cover_letter_resume_text ui)
                         (cover_letter_job_description ui) selected (company_name ui)
                         (recipient_name ui) w of
                    (Inl e, w') \<Rightarrow> (s, w')
                  | (Inr doc, w') \<Rightarrow>
                      if doc = [] then (s, w')
                      else (s\<lparr>custom_cover_letter := Some doc, cover_letter_generated := True,
                              selected_skills := Some selected\<rparr>, w'))))"

definition cover_letter_tab ::
  "service \<Rightarrow> widgets \<Rightarrow> session \<times> world \<Rightarrow> session \<times> world" where
  "cover_letter_tab svc ui sw =
     (let sw1 = (if clicked ui = AnalyzeCoverLetter then analyze_cover_letter svc ui sw else sw)
      in if truthy (skills (fst sw1)) \<and> clicked ui = GenerateCoverLetter
         then generate_cover svc ui sw1
         else sw1)"

text \<open>
  \<open>main_ui\<close>, one run with a configured API key: the resume tab, then the cover-letter
  tab.  Step 3 of each tab only reads the session: it previews the stored document while
  the tab's flag is set.
\<close>

definition main_ui :: "service \<Rightarrow> widgets \<Rightarrow> session \<times> world \<Rightarrow> session \<times> world" where
  "main_ui svc ui sw = cover_letter_tab svc ui (resume_tab svc ui sw)"

definition resume_preview :: "session \<Rightarrow> pystr option" where
  "resume_preview s = (if resume_generated s then custom_resume s else None)"

definition cover_letter_preview :: "session \<Rightarrow> pystr option" where
  "cover_letter_preview s = (if cover_letter_generated s then custom_cover_letter s else None)"

section \<open>Fixed surroundings for concrete runs\<close>

text \<open>
  \<open>always r\<close> is a service that answers every request with \<open>r\<close>; \<open>quiet\<close> is the world
  before anything was sent or shown.
\<close>

definition always :: "response \<Rightarrow> service" where
  "always r k prompt = r"

definition quiet :: world where
  "quiet = \<lparr>sent = [], shown = []\<rparr>"

text \<open>
  \<open>scripted rs\<close> answers the \<open>k\<close>-th request with the \<open>k\<close>-th response of \<open>rs\<close> and raises
  afterwards.
\<close>

definition scripted :: "response list \<Rightarrow> service" where
  "scripted rs k prompt = (if k < length rs then rs ! k else Raises)"

text \<open>
  A page filled in by the user: \<open>b\<close> is the button pressed, \<open>jd\<close> the job description
  in both tabs, and the first \<open>n\<close> skill checkboxes of both tabs are ticked
  (\<open>checked_below 5\<close> is the default of the page, \<open>value=(i < 5)\<close>).
\<close>

definition checked_below :: "nat \<Rightarrow> nat \<Rightarrow> bool" where
  "checked_below n i \<longleftrightarrow> i < n"

definition filled_form :: "button \<Rightarrow> pystr \<Rightarrow> nat \<Rightarrow> widgets" where
  "filled_form b jd n =
     \<lparr>clicked = b, resume_text = lit ''cv'', job_description = jd,
      skill_box = checked_below n, cover_letter_resume_text = lit ''cv'',
      cover_letter_job_description = jd, company_name = lit ''Acme'',
      recipient_name = lit ''Kim'', cover_letter_skill_box = checked_below n\<rparr>"

text \<open>
  Sessions to start from: \<open>listed\<close> holds a list of four skills; \<open>tailored\<close> is the same
  after both documents were generated with the first three skills selected.
\<close>

definition listed :: session where
  "listed = fresh\<lparr>skills := Some [lit ''SQL'', lit ''Git'', lit ''Go'', lit ''C'']\<rparr>"

definition tailored :: session where
  "tailored =
     listed\<lparr>resume_generated := True, cover_letter_generated := True,
            custom_resume := Some (lit ''CV''), custom_cover_letter := Some (lit ''Letter''),
            selected_skills := Some [lit ''SQL'', lit ''Git'', lit ''Go'']\<rparr>"

text \<open>
  Three runs of the page in a new session: the job description is analysed, a resume is
  generated with the first three skills ticked, and a new job description is analysed.
  The service answers with a list of four skills, a resume, and a list of three other
  skills.
\<close>

definition reanalysed :: "session \<times> world" where
  "reanalysed =
     (let svc = scripted
            [Text (join [NL] [lit ''1. SQL'', lit ''2. Git'', lit ''3. Go'', lit ''4. C'']),
             Text (lit ''CV''),
             Text (join [NL] [lit ''1. Ada'', lit ''2. Lua'', lit ''3. Perl''])]
      in main_ui svc (filled_form AnalyzeResume (lit ''new job'') 5)
           (main_ui svc (filled_form GenerateResume (lit ''job'') 3)
              (main_ui svc (filled_form AnalyzeResume (lit ''job'') 5) (fresh, quiet))))"

section \<open>The skill list: bounds and failures\<close>

lemmas text_eval =
  lit_def strip_def isspace_def isdecimal_def decimal_zeros_def NL_def MAX_SKILLS_def
  match_numbered_def group_at_def

lemmas run_eval =
  extract_skills_def sanitize_input_def generate_content_def always_def quiet_def

lemma scan_lines_bound:
  "length acc \<le> MAX_SKILLS \<Longrightarrow> length (scan_lines ls acc) \<le> MAX_SKILLS"
  by (induction ls arbitrary: acc) (auto split: option.splits)

lemma scan_lines_no_match:
  "\<forall>line \<in> set ls. match_numbered (strip line) = None \<Longrightarrow> scan_lines ls acc = acc"
  by (induction ls arbitrary: acc) auto

lemma scan_lines_take:
  "scan_lines ls acc =
     acc @ take (MAX_SKILLS - length acc)
             (List.map_filter (\<lambda>line. match_numbered (strip line)) ls)"
proof (induction ls arbitrary: acc)
  case Nil
  then show ?case by simp
next
  case (Cons line ls)
  show ?case
  proof (cases "match_numbered (strip line)")
    case None
    then show ?thesis using Cons.IH [of acc] by simp
  next
    case (Some g)
    show ?thesis
    proof (cases "length acc < MAX_SKILLS")
      case True
      then obtain n where n: "MAX_SKILLS - length acc = Suc n"
        by (metis Suc_diff_Suc)
      then have "MAX_SKILLS - length (acc @ [g]) = n" by simp
      then show ?thesis using Some True n Cons.IH [of "acc @ [g]"]
        by simp
    next
      case False
      then show ?thesis using Some Cons.IH [of acc] by simp
    qed
  qed
qed

lemma strip_all_space: "list_all isspace s \<Longrightarrow> strip s = []"
proof -
  assume "list_all isspace s"
  then have h: "dropWhile isspace s = []" by (induction s) auto
  show ?thesis unfolding strip_def h by simp
qed

lemma extract_skills_Inr:
  "fst (extract_skills svc jd w) = Inr sk \<Longrightarrow>
     \<exists>r. r \<noteq> [] \<and> sk = scan_lines (split NL r) [] \<and> sk \<noteq> []"
  by (auto simp: extract_skills_def Let_def split: if_splits prod.splits option.splits)

text \<open>
  C10.  Whenever \<open>extract_skills\<close> succeeds, the list it returns is not empty and has at
  most 10 entries; an empty list is never a success.
\<close>

theorem extract_skills_success_bounds:
  "fst (extract_skills svc jd w) = Inr sk \<Longrightarrow> sk \<noteq> [] \<and> length sk \<le> 10"
proof -
  assume "fst (extract_skills svc jd w) = Inr sk"
  then obtain r where "sk = scan_lines (split NL r) []" "sk \<noteq> []"
    using extract_skills_Inr by blast
  moreover have "length (scan_lines (split NL r) []) \<le> MAX_SKILLS"
    by (rule scan_lines_bound) simp
  ultimately show ?thesis by (simp add: MAX_SKILLS_def)
qed

theorem extract_skills_success_bounds_witness:
  "fst (extract_skills (always (Text (lit ''1. SQL''))) (lit ''x'') quiet) = Inr [lit ''SQL''] \<and>
   [lit ''SQL''] \<noteq> [] \<and> length [lit ''SQL''] \<le> 10"
proof -
  have h: "fst (extract_skills (always (Text (lit ''1. SQL''))) (lit ''x'') quiet) =
             Inr [lit ''SQL'']"
    by (simp add: run_eval text_eval)
  show ?thesis using h extract_skills_success_bounds [OF h] by simp
qed

text \<open>
  C4.  A job description that is empty, or nothing but whitespace, makes \<open>extract_skills\<close>
  fail with \<open>EmptyInput\<close> (\<open>None\<close> for the caller), and the world is the one it started
  in: no prompt was sent to the generation service.
\<close>

theorem extract_skills_empty_input:
  "list_all isspace jd \<Longrightarrow>
     extract_skills svc jd w = (Inl EmptyInput, w) \<and>
     returned (fst (extract_skills svc jd w)) = None \<and>
     sent (snd (extract_skills svc jd w)) = sent w"
  by (simp add: extract_skills_def sanitize_input_def strip_all_space returned_def)

theorem extract_skills_empty_input_witness:
  "list_all isspace [32, 9, 32] \<and>
   extract_skills (always (Text (lit ''1. SQL''))) [32, 9, 32] quiet = (Inl EmptyInput, quiet) \<and>
   sent (snd (extract_skills (always (Text (lit ''1. SQL''))) [32, 9, 32] quiet)) = []"
proof -
  have h: "list_all isspace [32, 9, 32]" by (simp add: isspace_def)
  show ?thesis
    using h extract_skills_empty_input [OF h, of "always (Text (lit ''1. SQL''))" quiet]
    by (simp add: quiet_def)
qed

text \<open>
  C5.  When any of its three inputs is empty, \<open>generate_custom_resume\<close> fails with
  \<open>MissingInput\<close> and leaves the world as it was, so the service was not asked; the same
  holds for \<open>generate_cover_letter\<close> and its five inputs.
\<close>

theorem synthesis_missing_input:
  "(resume = [] \<or> jd = [] \<or> sel = [] \<longrightarrow>
      generate_custom_resume svc resume jd sel w = (Inl MissingInput, w)) \<and>
   (resume = [] \<or> jd = [] \<or> sel = [] \<or> company = [] \<or> recipient = [] \<longrightarrow>
      generate_cover_letter svc resume jd sel company recipient w = (Inl MissingInput, w))"
  by (simp add: generate_custom_resume_def generate_cover_letter_def)

theorem synthesis_missing_input_witness:
  "generate_custom_resume (always (Text (lit ''doc''))) (lit ''cv'') (lit ''job'') [] quiet =
     (Inl MissingInput, quiet) \<and>
   generate_cover_letter (always (Text (lit ''doc''))) (lit ''cv'') (lit ''job'') [] (lit ''Acme'') []
       quiet =
     (Inl MissingInput, quiet)"
  using synthesis_missing_input
          [of "lit ''cv''" "lit ''job''" "[]" "always (Text (lit ''doc''))" quiet "lit ''Acme''" "[]"]
  by simp

text \<open>
  C3.  When the service answers the extraction request with a text in which no line
  matches the numbered pattern, \<open>extract_skills\<close> produces no skill list; with a
  non-blank job description and a non-empty text, which is when the text reaches the scan
  of lines 104 to 110, the failure is \<open>NoSkillsFound\<close>.
\<close>

theorem extract_skills_no_match:
  assumes "\<forall>line \<in> set (split NL r). match_numbered (strip line) = None"
    and "svc (length (sent w)) (skills_prompt (sanitize_input jd)) = Text r"
  shows "returned (fst (extract_skills svc jd w)) = None \<and>
         (sanitize_input jd \<noteq> [] \<and> r \<noteq> [] \<longrightarrow>
            fst (extract_skills svc jd w) = Inl NoSkillsFound)"
  using assms
  by (simp add: extract_skills_def generate_content_def Let_def returned_def scan_lines_no_match)

theorem extract_skills_no_match_witness:
  "split NL (lit ''No list.'') = [lit ''No list.''] \<and>
   match_numbered (strip (lit ''No list.'')) = None \<and>
   sanitize_input (lit ''x'') \<noteq> [] \<and> lit ''No list.'' \<noteq> [] \<and>
   fst (extract_skills (always (Text (lit ''No list.''))) (lit ''x'') quiet) = Inl NoSkillsFound"
proof -
  have h: "\<forall>line \<in> set (split NL (lit ''No list.'')). match_numbered (strip line) = None"
    by (simp add: text_eval)
  have a: "always (Text (lit ''No list.'')) (length (sent quiet))
             (skills_prompt (sanitize_input (lit ''x''))) = Text (lit ''No list.'')"
    by (simp add: always_def)
  have n: "sanitize_input (lit ''x'') \<noteq> [] \<and> lit ''No list.'' \<noteq> []"
    by (simp add: sanitize_input_def text_eval)
  have e: "split NL (lit ''No list.'') = [lit ''No list.''] \<and>
           match_numbered (strip (lit ''No list.'')) = None"
    by (simp add: text_eval)
  show ?thesis
    using e n
      extract_skills_no_match
        [where r = "lit ''No list.''" and svc = "always (Text (lit ''No list.''))" and w = quiet
           and jd = "lit ''x''", OF h a]
    by simp
qed

section \<open>The download link\<close>

lemma unat_byte_less: "unat (a :: byte) < 256"
  using unsigned_less [of a, where ?'a = nat] by simp

lemma unat_b64char:
  "k < 64 \<Longrightarrow> unat (b64char k) =
     (if k < 26 then 65 + k else if k < 52 then 97 + (k - 26)
      else if k < 62 then 48 + (k - 52) else if k = 62 then 43 else 47)"
  by (simp add: b64char_def unat_of_nat)

lemma b64value_b64char: "k < 64 \<Longrightarrow> b64value (unat (b64char k)) = Some k"
  by (auto simp: unat_b64char b64value_def)

lemma b64char_plain: "k < 64 \<Longrightarrow> unat (b64char k) \<noteq> 61 \<and> unat (b64char k) \<noteq> 34 \<and> unat (b64char k) < 128"
  by (auto simp: unat_b64char)

lemma sextets:
  fixes a b c :: byte
  shows "unat a div 4 < 64" "unat a mod 4 * 16 < 64" "unat a mod 4 * 16 + unat b div 16 < 64"
    "unat b mod 16 * 4 < 64" "unat b mod 16 * 4 + unat c div 64 < 64" "unat c mod 64 < 64"
  using unat_byte_less [of a] unat_byte_less [of b] unat_byte_less [of c] by simp_all

lemma byte1_back:
  fixes a b :: byte
  shows "byte1 (unat a div 4) (unat a mod 4 * 16 + unat b div 16) = a"
    "byte1 (unat a div 4) (unat a mod 4 * 16) = a"
proof -
  have b: "unat b div 16 < 16" using unat_byte_less [of b] by simp
  have "unat a div 4 * 4 + (unat a mod 4 * 16 + unat b div 16) div 16 = unat a"
    using b by simp
  then show "byte1 (unat a div 4) (unat a mod 4 * 16 + unat b div 16) = a"
    by (simp add: byte1_def)
  have "unat a div 4 * 4 + (unat a mod 4 * 16) div 16 = unat a" by simp
  then show "byte1 (unat a div 4) (unat a mod 4 * 16) = a"
    by (simp add: byte1_def)
qed

lemma byte2_back:
  fixes a b c :: byte
  shows "byte2 (unat a mod 4 * 16 + unat b div 16) (unat b mod 16 * 4 + unat c div 64) = b"
    "byte2 (unat a mod 4 * 16 + unat b div 16) (unat b mod 16 * 4) = b"
proof -
  have b: "unat b div 16 < 16" using unat_byte_less [of b] by simp
  have c: "unat c div 64 < 4" using unat_byte_less [of c] by simp
  have "(unat a mod 4 * 16 + unat b div 16) mod 16 * 16 + (unat b mod 16 * 4 + unat c div 64) div 4
          = unat b"
    using b c by simp
  then show "byte2 (unat a mod 4 * 16 + unat b div 16) (unat b mod 16 * 4 + unat c div 64) = b"
    by (simp add: byte2_def)
  have "(unat a mod 4 * 16 + unat b div 16) mod 16 * 16 + (unat b mod 16 * 4) div 4 = unat b"
    using b by simp
  then show "byte2 (unat a mod 4 * 16 + unat b div 16) (unat b mod 16 * 4) = b"
    by (simp add: byte2_def)
qed

lemma byte3_back:
  fixes b c :: byte
  shows "byte3 (unat b mod 16 * 4 + unat c div 64) (unat c mod 64) = c"
proof -
  have c: "unat c div 64 < 4" using unat_byte_less [of c] by simp
  have "(unat b mod 16 * 4 + unat c div 64) mod 4 * 64 + unat c mod 64 = unat c"
    using c by simp
  then show ?thesis by (simp add: byte3_def)
qed

lemma b64_roundtrip: "b64decode (decode_ascii (b64encode d)) = Some d"
proof (induction d rule: b64encode.induct)
  case 1
  then show ?case by (simp add: decode_ascii_def)
next
  case (2 a)
  then show ?case
    by (simp add: decode_ascii_def b64value_b64char sextets byte1_back)
next
  case (3 a b)
  then show ?case
    by (simp add: decode_ascii_def b64value_b64char sextets b64char_plain byte1_back byte2_back)
next
  case (4 a b c rest)
  then show ?case
    by (simp add: decode_ascii_def b64value_b64char sextets b64char_plain byte1_back byte2_back
        byte3_back)
qed

lemma b64encode_chars:
  "\<forall>x \<in> set (decode_ascii (b64encode d)). x \<noteq> 34 \<and> x < 128"
  by (induction d rule: b64encode.induct) (simp_all add: decode_ascii_def b64char_plain sextets)

lemma href_payload_link:
  "href_payload (create_download_link d name) = Some (decode_ascii (b64encode d))"
proof -
  have q: \<open>lit ''" download="'' = 34 # lit '' download="''\<close>
    by (simp add: lit_def)
  have n: "\<And>x. x \<in> set (decode_ascii (b64encode d)) \<Longrightarrow> x \<noteq> 34"
    using b64encode_chars by blast
  show ?thesis
    unfolding href_payload_def create_download_link_def Let_def q
    by (simp add: takeWhile_append2 n)
qed

text \<open>
  C6.  For every byte buffer and file name, the payload of the data URI in the link made
  by \<open>create_download_link\<close> decodes, as Base64, to the buffer itself.
\<close>

theorem download_link_roundtrip:
  "Option.bind (href_payload (create_download_link d name)) b64decode = Some d"
  by (simp add: href_payload_link b64_roundtrip)

theorem download_link_roundtrip_witness:
  \<open>create_download_link [77, 97] (lit ''a.pdf'') =
     lit ''<a href="data:application/octet-stream;base64,TWE=" download="a.pdf">Download a.pdf</a>'' \<and>
   Option.bind (href_payload (create_download_link [77, 97] (lit ''a.pdf''))) b64decode = Some [77, 97]\<close>
proof -
  have \<open>create_download_link [77, 97] (lit ''a.pdf'') =
     lit ''<a href="data:application/octet-stream;base64,TWE=" download="a.pdf">Download a.pdf</a>''\<close>
    by (simp add: create_download_link_def decode_ascii_def b64char_def lit_def)
  then show ?thesis using download_link_roundtrip [of "[77, 97]" "lit ''a.pdf''"] by simp
qed

section \<open>Export of text beyond Latin-1\<close>

lemma replace_latin1:
  "decode_latin1 (encode_latin1_replace s) = map (\<lambda>c. if c < 256 then c else 63) s"
  by (simp add: decode_latin1_def encode_latin1_replace_def unat_of_nat)

lemma replace_latin1_range: "list_all (\<lambda>c. c < 256) (decode_latin1 (encode_latin1_replace s))"
  by (auto simp: replace_latin1 list_all_iff)

lemma split_pieces: "list_all P s \<Longrightarrow> list_all (list_all P) (split sep s)"
  by (induction s) (auto split: list.splits)

lemma cells_page_fpdf:
  "cells page_fpdf h ls p = Inr (p @ concat (map (\<lambda>l. l @ [NL]) ls))"
  by (induction ls arbitrary: p) (simp_all add: page_fpdf_def)

lemma create_pdf_page_fpdf:
  "create_pdf page_fpdf s =
     Some (map of_nat (concat (map (\<lambda>l. l @ [NL])
             (split NL (map (\<lambda>c. if c < 256 then c else 63) s)))))"
proof -
  let ?t = "decode_latin1 (encode_latin1_replace s)"
  have "list_all (list_all (\<lambda>c. c < 256)) (split NL ?t)"
    by (rule split_pieces) (rule replace_latin1_range)
  then have r: "list_all (\<lambda>c. c < 256) (concat (map (\<lambda>l. l @ [NL]) (split NL ?t)))"
    by (auto simp: list_all_iff NL_def)
  have s: "start page_fpdf 11 = Inr []" "\<And>p. output_S page_fpdf p =
      (if list_all (\<lambda>c. c < 256) p then Inr p else Inl UnicodeEncodeError)"
    by (simp_all add: page_fpdf_def)
  show ?thesis
    unfolding create_pdf_def Let_def s cells_page_fpdf
    using r by (simp add: encode_latin1_def replace_latin1)
qed

text \<open>
  C9.  The claim: every export replaces a character that has no Latin-1 byte and does not
  raise.  \<open>create_pdf\<close> does so (\<open>replace_latin1\<close>, \<open>create_pdf_page_fpdf\<close>); the export of
  the meal plan hands the text to the library unchanged and catches nothing.  On the
  text \<open>Tofu\<close>, en dash, two CJK characters, with a library that encodes its pages as
  Latin-1, the meal-plan export raises \<open>UnicodeEncodeError\<close> where \<open>create_pdf\<close> returns
  the bytes of \<open>Tofu ? ??\<close>.
\<close>

theorem meal_plan_pdf_raises:
  "meal_plan_pdf page_fpdf [84, 111, 102, 117, 32, 8211, 32, 35910, 33104] = Inl UnicodeEncodeError \<and>
   create_pdf page_fpdf [84, 111, 102, 117, 32, 8211, 32, 35910, 33104] =
     Some [84, 111, 102, 117, 32, 63, 32, 63, 63, 10]"
  unfolding create_pdf_page_fpdf
  by (simp add: meal_plan_pdf_def page_fpdf_def NL_def)

section \<open>Which lines are accepted\<close>

lemma isdecimal_ge: "isdecimal c \<Longrightarrow> 48 \<le> c"
  by (auto simp: isdecimal_def decimal_zeros_def)

lemma isdecimal_not_space: "isdecimal c \<Longrightarrow> \<not> isspace c"
proof
  assume d: "isdecimal c" and s: "isspace c"
  from d have g: "48 \<le> c" by (rule isdecimal_ge)
  from s g consider "c = 133" | "c = 160" | "c = 5760" | "8192 \<le> c \<and> c \<le> 8202"
    | "c = 8232" | "c = 8233" | "c = 8239" | "c = 8287" | "c = 12288"
    by (auto simp: isspace_def)
  then show False
  proof cases
    case 4
    with d show False by (auto simp: isdecimal_def decimal_zeros_def)
  qed (use d in \<open>simp_all add: isdecimal_def decimal_zeros_def\<close>)
qed

lemma plain_chars:
  "\<not> isdecimal 46" "\<not> isspace 46" "isspace 32" "isspace NL" "\<not> isdecimal NL"
  by (simp_all add: isdecimal_def decimal_zeros_def isspace_def NL_def)

lemma group_from_first: "group_at (drop k r) = Some g \<Longrightarrow> group_from k r = Some g"
  by (cases k) simp_all

lemma group_from_None: "(\<And>j. j \<le> k \<Longrightarrow> group_at (drop j r) = None) \<Longrightarrow> group_from k r = None"
proof (induction k)
  case 0
  then show ?case using "0" [of 0] by simp
next
  case (Suc k)
  have "group_at (drop (Suc k) r) = None" using Suc.prems [of "Suc k"] by simp
  moreover have "group_from k r = None" using Suc.IH Suc.prems by simp
  ultimately show ?case by simp
qed

lemma group_at_plain: "t \<noteq> [] \<Longrightarrow> NL \<notin> set t \<Longrightarrow> group_at t = Some t"
proof -
  assume t: "t \<noteq> []" and n: "NL \<notin> set t"
  have a: "takeWhile (\<lambda>c. c \<noteq> NL) t = t" using n by (auto simp: takeWhile_eq_all_conv)
  have b: "dropWhile (\<lambda>c. c \<noteq> NL) t = []" using n by auto
  show ?thesis unfolding group_at_def a b using t by simp
qed

lemma group_at_inner_NL:
  assumes "NL \<in> set t" and "last t \<noteq> NL"
  shows "group_at t = None"
proof -
  let ?g = "takeWhile (\<lambda>c. c \<noteq> NL) t" and ?r = "dropWhile (\<lambda>c. c \<noteq> NL) t"
  have t: "t = ?g @ ?r" by simp
  have "?r \<noteq> []" using assms(1) by auto
  moreover have "?r \<noteq> [NL]"
  proof
    assume "?r = [NL]"
    then have "last t = NL" using t by (metis last_snoc)
    with assms(2) show False by simp
  qed
  ultimately show ?thesis by (auto simp: group_at_def Let_def)
qed

lemma group_from_stripped:
  assumes "r = [] \<or> \<not> isspace (last r)"
  shows "group_from (length (takeWhile isspace r)) r =
           (let t = dropWhile isspace r in if t \<noteq> [] \<and> NL \<notin> set t then Some t else None)"
proof -
  let ?k = "length (takeWhile isspace r)" and ?t = "dropWhile isspace r"
  have dk: "drop ?k r = ?t" by (simp add: dropWhile_eq_drop)
  consider "?t \<noteq> [] \<and> NL \<notin> set ?t" | "?t = []" | "?t \<noteq> [] \<and> NL \<in> set ?t" by blast
  then show ?thesis
  proof cases
    case 1
    then have "group_at (drop ?k r) = Some ?t" using dk group_at_plain by simp
    then show ?thesis using 1 by (simp add: group_from_first Let_def)
  next
    case 2
    then have all: "\<forall>x \<in> set r. isspace x" by simp
    have "r = []"
    proof (rule ccontr)
      assume "r \<noteq> []"
      then have "last r \<in> set r" by simp
      with all assms \<open>r \<noteq> []\<close> show False by blast
    qed
    then show ?thesis by (simp add: group_at_def)
  next
    case 3
    then have len: "?k < length r"
      by (metis dk drop_eq_Nil not_le)
    have rn: "r \<noteq> []" using 3 by auto
    have lastr: "last r \<noteq> NL" using assms rn plain_chars(4) by auto
    have "group_at (drop j r) = None" if "j \<le> ?k" for j
    proof (rule group_at_inner_NL)
      have "set (drop ?k r) \<subseteq> set (drop j r)" using that by (rule set_drop_subset_set_drop)
      then show "NL \<in> set (drop j r)" using 3 dk by auto
      have "j < length r" using that len by simp
      then show "last (drop j r) \<noteq> NL" using lastr by (simp add: last_drop)
    qed
    then have "group_from ?k r = None" by (rule group_from_None)
    then show ?thesis using 3 by (simp add: Let_def)
  qed
qed

lemma strip_ends:
  "strip l = [] \<or> (\<not> isspace (hd (strip l)) \<and> \<not> isspace (last (strip l)))"
proof (cases "strip l = []")
  case True
  then show ?thesis by simp
next
  case False
  let ?u = "dropWhile isspace l"
  let ?v = "dropWhile isspace (rev ?u)"
  have s: "strip l = rev ?v" by (simp add: strip_def)
  with False have v: "?v \<noteq> []" by simp
  then have hv: "\<not> isspace (hd ?v)" by (rule hd_dropWhile)
  have "last (strip l) = hd ?v" using v s by (simp add: last_rev)
  then have a: "\<not> isspace (last (strip l))" using hv by simp
  have u: "?u \<noteq> []"
  proof
    assume e: "?u = []"
    have "?v = []" unfolding e by simp
    with v show False by simp
  qed
  then have hu: "\<not> isspace (hd ?u)" by (rule hd_dropWhile)
  have "rev ?u = takeWhile isspace (rev ?u) @ ?v" by simp
  then have "?u = rev ?v @ rev (takeWhile isspace (rev ?u))"
    by (metis rev_append rev_rev_ident)
  then have "hd ?u = hd (rev ?v)" using v by (metis hd_append2 rev_is_Nil_conv)
  then have "\<not> isspace (hd (strip l))" using hu s by simp
  with a show ?thesis by simp
qed

lemma strip_decompose:
  "\<exists>b. l = takeWhile isspace l @ strip l @ b \<and> list_all isspace b"
proof -
  let ?u = "dropWhile isspace l"
  let ?b = "rev (takeWhile isspace (rev ?u))"
  have "rev ?u = takeWhile isspace (rev ?u) @ dropWhile isspace (rev ?u)" by simp
  then have "?u = rev (dropWhile isspace (rev ?u)) @ ?b"
    by (metis rev_append rev_rev_ident)
  then have "?u = strip l @ ?b" by (simp add: strip_def)
  then have "l = takeWhile isspace l @ strip l @ ?b"
    by (metis takeWhile_dropWhile_id)
  moreover have "list_all isspace ?b"
    by (simp add: list_all_iff) (metis set_takeWhileD)
  ultimately show ?thesis by blast
qed

lemma strip_sandwich:
  assumes "list_all isspace a" "list_all isspace b" "m \<noteq> []"
    "\<not> isspace (hd m)" "\<not> isspace (last m)"
  shows "strip (a @ m @ b) = m"
proof -
  obtain x m' where m: "m = x # m'" using assms(3) by (cases m) auto
  have "dropWhile isspace (a @ m @ b) = dropWhile isspace (m @ b)"
    by (rule dropWhile_append2) (use assms(1) in \<open>auto simp: list_all_iff\<close>)
  also have "\<dots> = m @ b" using m assms(4) by simp
  finally have u: "dropWhile isspace (a @ m @ b) = m @ b" .
  obtain y n where n: "rev m = y # n" using assms(3) by (cases "rev m") auto
  then have y: "y = last m" by (metis assms(3) hd_rev list.sel(1))
  have "dropWhile isspace (rev (m @ b)) = dropWhile isspace (rev b @ rev m)" by simp
  also have "\<dots> = dropWhile isspace (rev m)"
    by (rule dropWhile_append2) (use assms(2) in \<open>auto simp: list_all_iff\<close>)
  also have "\<dots> = rev m" unfolding n using y assms(5) by simp
  finally show ?thesis unfolding strip_def u by simp
qed

lemma match_shape:
  assumes "d \<noteq> []" "list_all isdecimal d" "list_all isspace ws" "g \<noteq> []"
    "\<not> isspace (hd g)" "NL \<notin> set g"
  shows "match_numbered (d @ [46] @ ws @ g) = Some g"
proof -
  obtain x g' where g: "g = x # g'" using assms(4) by (cases g) auto
  have td: "takeWhile isdecimal (d @ [46] @ ws @ g) = d"
    using assms(2) by (simp add: takeWhile_append2 list_all_iff plain_chars)
  have dd: "dropWhile isdecimal (d @ [46] @ ws @ g) = 46 # ws @ g"
    using assms(2) by (simp add: dropWhile_append2 list_all_iff plain_chars)
  have tw: "takeWhile isspace (ws @ g) = ws"
    using assms(3,5) g by (simp add: takeWhile_append2 list_all_iff)
  have "group_at (drop (length ws) (ws @ g)) = Some g"
    using assms(4,6) by (simp add: group_at_plain)
  then have "group_from (length ws) (ws @ g) = Some g" by (rule group_from_first)
  then show ?thesis unfolding match_numbered_def td dd using assms(1) tw by simp
qed

lemma match_stripped:
  assumes "s = [] \<or> \<not> isspace (last s)"
  shows "match_numbered s =
    (if takeWhile isdecimal s = [] then None
     else (case dropWhile isdecimal s of
             [] \<Rightarrow> None
           | c # r \<Rightarrow>
               if c \<noteq> 46 then None
               else (let t = dropWhile isspace r
                     in if t \<noteq> [] \<and> NL \<notin> set t then Some t else None)))"
proof (cases "dropWhile isdecimal s")
  case Nil
  show ?thesis unfolding match_numbered_def Nil by simp
next
  case (Cons c r)
  have "s = takeWhile isdecimal s @ c # r" using Cons by (metis takeWhile_dropWhile_id)
  then have "r = [] \<or> last r = last s" by (metis last_appendR last_ConsR list.distinct(1))
  moreover have "s \<noteq> []" using Cons by auto
  ultimately have "r = [] \<or> \<not> isspace (last r)" using assms by auto
  then have "group_from (length (takeWhile isspace r)) r =
      (let t = dropWhile isspace r in if t \<noteq> [] \<and> NL \<notin> set t then Some t else None)"
    by (rule group_from_stripped)
  then show ?thesis unfolding match_numbered_def Cons by simp
qed

lemma match_numbered_shape:
  "match_numbered (strip line) = Some g \<longleftrightarrow>
     (\<exists>d ws. strip line = d @ [46] @ ws @ g \<and> d \<noteq> [] \<and> list_all isdecimal d \<and>
        list_all isspace ws \<and> g \<noteq> [] \<and> \<not> isspace (hd g) \<and> NL \<notin> set g)"
proof
  assume m: "match_numbered (strip line) = Some g"
  let ?s = "strip line"
  have e: "?s = [] \<or> \<not> isspace (last ?s)" using strip_ends [of line] by blast
  let ?d = "takeWhile isdecimal ?s"
  from m have d: "?d \<noteq> []" by (auto simp: match_stripped [OF e] split: if_splits)
  from m obtain r where r: "dropWhile isdecimal ?s = 46 # r"
    by (auto simp: match_stripped [OF e] split: if_splits list.splits)
  let ?ws = "takeWhile isspace r"
  from m r d have g: "g = dropWhile isspace r" "g \<noteq> []" "NL \<notin> set g"
    by (auto simp: match_stripped [OF e] Let_def split: if_splits)
  have "?s = ?d @ 46 # r" using r by (metis takeWhile_dropWhile_id)
  moreover have "r = ?ws @ g" using g by simp
  ultimately have "?s = ?d @ [46] @ ?ws @ g" by simp
  moreover have "list_all isdecimal ?d" by (simp add: list_all_iff) (metis set_takeWhileD)
  moreover have "list_all isspace ?ws" by (simp add: list_all_iff) (metis set_takeWhileD)
  moreover have "\<not> isspace (hd g)" using g(1,2) hd_dropWhile by blast
  ultimately show "\<exists>d ws. strip line = d @ [46] @ ws @ g \<and> d \<noteq> [] \<and> list_all isdecimal d \<and>
        list_all isspace ws \<and> g \<noteq> [] \<and> \<not> isspace (hd g) \<and> NL \<notin> set g"
    using d g by blast
next
  assume "\<exists>d ws. strip line = d @ [46] @ ws @ g \<and> d \<noteq> [] \<and> list_all isdecimal d \<and>
        list_all isspace ws \<and> g \<noteq> [] \<and> \<not> isspace (hd g) \<and> NL \<notin> set g"
  then show "match_numbered (strip line) = Some g" using match_shape by auto
qed

text \<open>
  C2, as amended.  A line is accepted as a skill exactly when, once stripped, it is a
  non-empty run of decimal digits, a period, any run of whitespace (none will do), and
  then a non-empty text that starts with no whitespace and has no newline; the skill is
  that text.  An accepted skill is appended while fewer than 10 are held and dropped
  afterwards; a line that does not match leaves the list as it is, and nothing fails.
\<close>

theorem numbered_line_accepted:
  "(match_numbered (strip line) = Some g \<longleftrightarrow>
      (\<exists>d ws. strip line = d @ [46] @ ws @ g \<and> d \<noteq> [] \<and> list_all isdecimal d \<and>
         list_all isspace ws \<and> g \<noteq> [] \<and> \<not> isspace (hd g) \<and> NL \<notin> set g)) \<and>
   (match_numbered (strip line) = Some g \<and> length acc < 10 \<longrightarrow>
      scan_lines (line # rest) acc = scan_lines rest (acc @ [g])) \<and>
   (match_numbered (strip line) = Some g \<and> 10 \<le> length acc \<longrightarrow>
      scan_lines (line # rest) acc = scan_lines rest acc) \<and>
   (match_numbered (strip line) = None \<longrightarrow>
      scan_lines (line # rest) acc = scan_lines rest acc)"
proof (intro conjI)
  show "match_numbered (strip line) = Some g \<longleftrightarrow>
      (\<exists>d ws. strip line = d @ [46] @ ws @ g \<and> d \<noteq> [] \<and> list_all isdecimal d \<and>
         list_all isspace ws \<and> g \<noteq> [] \<and> \<not> isspace (hd g) \<and> NL \<notin> set g)"
    by (rule match_numbered_shape)
qed (simp_all add: MAX_SKILLS_def)

theorem numbered_line_accepted_witness:
  "match_numbered (strip (lit '' 7.SQL '')) = Some (lit ''SQL'') \<and>
   (\<exists>d ws. strip (lit '' 7.SQL '') = d @ [46] @ ws @ lit ''SQL'' \<and> d \<noteq> [] \<and>
      list_all isdecimal d \<and> list_all isspace ws \<and> lit ''SQL'' \<noteq> [] \<and>
      \<not> isspace (hd (lit ''SQL'')) \<and> NL \<notin> set (lit ''SQL'')) \<and>
   scan_lines [lit '' 7.SQL '', lit ''and more''] [] = [lit ''SQL'']"
proof -
  have m: "match_numbered (strip (lit '' 7.SQL '')) = Some (lit ''SQL'')"
    by (simp add: text_eval)
  have n: "match_numbered (strip (lit ''and more'')) = None"
    by (simp add: text_eval)
  have l: "length ([] :: pystr list) < 10" by simp
  note t = numbered_line_accepted [of "lit '' 7.SQL ''" "lit ''SQL''" "[]" "[lit ''and more'']"]
  note u = numbered_line_accepted [of "lit ''and more''" "lit ''SQL''" "[lit ''SQL'']" "[]"]
  from t m have e: "\<exists>d ws. strip (lit '' 7.SQL '') = d @ [46] @ ws @ lit ''SQL'' \<and> d \<noteq> [] \<and>
      list_all isdecimal d \<and> list_all isspace ws \<and> lit ''SQL'' \<noteq> [] \<and>
      \<not> isspace (hd (lit ''SQL'')) \<and> NL \<notin> set (lit ''SQL'')" by blast
  from t m l have "scan_lines [lit '' 7.SQL '', lit ''and more''] [] =
      scan_lines [lit ''and more''] [lit ''SQL'']" by simp
  also from u n have "\<dots> = scan_lines [] [lit ''SQL'']" by simp
  finally show ?thesis using m e by simp
qed

text \<open>
  C2 as stated wants whitespace between the period and the text.  The line \<open>1.SQL\<close> has
  no whitespace character at all and is accepted, with the skill \<open>SQL\<close>.
\<close>

theorem no_whitespace_line_accepted:
  "scan_lines [lit ''1.SQL''] [] = [lit ''SQL''] \<and> \<not> list_ex isspace (lit ''1.SQL'')"
  by (simp add: text_eval)

lemma strip_subset: "set (strip t) \<subseteq> set t"
proof -
  obtain b where "t = takeWhile isspace t @ strip t @ b" using strip_decompose by blast
  then have "set t = set (takeWhile isspace t) \<union> set (strip t) \<union> set b"
    by (metis set_append sup_assoc)
  then show ?thesis by blast
qed

lemma match_line:
  assumes "d \<noteq> []" "list_all isdecimal d" "strip t \<noteq> []" "NL \<notin> set t"
  shows "match_numbered (strip (d @ [46, 32] @ t)) = Some (strip t)"
proof -
  let ?a = "takeWhile isspace t"
  obtain b where b: "t = ?a @ strip t @ b" "list_all isspace b"
    using strip_decompose by blast
  have e: "\<not> isspace (hd (strip t))" "\<not> isspace (last (strip t))"
    using strip_ends [of t] assms(3) by auto
  let ?m = "d @ [46, 32] @ ?a @ strip t"
  have "hd ?m = hd d" using assms(1) by simp
  moreover have "isdecimal (hd d)" using assms(1,2) by (cases d) (auto simp: list_all_iff)
  ultimately have h: "\<not> isspace (hd ?m)" using isdecimal_not_space by simp
  have l: "\<not> isspace (last ?m)" using e(2) assms(3) by simp
  have "d @ [46, 32] @ t = [] @ ?m @ b" using b(1) by simp
  moreover have "strip ([] @ ?m @ b) = ?m"
    by (rule strip_sandwich) (use b(2) h l in simp_all)
  ultimately have s: "strip (d @ [46, 32] @ t) = d @ [46] @ (32 # ?a) @ strip t" by simp
  have ws: "list_all isspace (32 # ?a)"
    by (simp add: plain_chars list_all_iff) (metis set_takeWhileD)
  have nl: "NL \<notin> set (strip t)" using assms(4) strip_subset by blast
  show ?thesis unfolding s by (rule match_shape [OF assms(1,2) ws assms(3) e(1) nl])
qed

lemma match_line_Cons:
  assumes "d \<noteq> []" "list_all isdecimal d" "strip t \<noteq> []" "NL \<notin> set t"
  shows "match_numbered (strip (d @ 46 # 32 # t)) = Some (strip t)"
  using match_line [OF assms] by simp

lemma split_plain: "sep \<notin> set p \<Longrightarrow> split sep p = [p]"
  by (induction p) auto

lemma split_append: "sep \<notin> set p \<Longrightarrow> split sep (p @ sep # rest) = p # split sep rest"
  by (induction p) auto

lemma split_join:
  "ls \<noteq> [] \<Longrightarrow> \<forall>l \<in> set ls. sep \<notin> set l \<Longrightarrow> split sep (join [sep] ls) = ls"
  by (induction "[sep]" ls rule: join.induct) (simp_all add: split_plain split_append)

lemma decimal_no_NL: "list_all isdecimal d \<Longrightarrow> NL \<notin> set d"
  using plain_chars(5) by (auto simp: list_all_iff)

lemma numbered_lines_plain:
  assumes "length ds = length ts"
    and "\<forall>d \<in> set ds. d \<noteq> [] \<and> list_all isdecimal d"
    and "\<forall>t \<in> set ts. strip t \<noteq> [] \<and> NL \<notin> set t"
  shows "\<forall>l \<in> set (map2 (\<lambda>d t. d @ [46, 32] @ t) ds ts). NL \<notin> set l"
  using assms
proof (induction ds ts rule: list_induct2)
  case Nil
  then show ?case by simp
next
  case (Cons d ds t ts)
  have "NL \<notin> set (d @ [46, 32] @ t)"
    using Cons.prems decimal_no_NL [of d] by (simp add: NL_def)
  then show ?case using Cons by simp
qed

lemma numbered_lines_matches:
  assumes "length ds = length ts"
    and "\<forall>d \<in> set ds. d \<noteq> [] \<and> list_all isdecimal d"
    and "\<forall>t \<in> set ts. strip t \<noteq> [] \<and> NL \<notin> set t"
  shows "List.map_filter (\<lambda>l. match_numbered (strip l)) (map2 (\<lambda>d t. d @ [46, 32] @ t) ds ts) =
           map strip ts"
  using assms by (induction ds ts rule: list_induct2) (simp_all add: match_line_Cons)

section \<open>A response of numbered lines\<close>

lemma lit_period_space: "lit ''. '' = [46, 32]"
  by (simp add: lit_def)

text \<open>
  C1, as amended.  Let the response consist of lines \<open>d. t\<close>, one for each pair of a
  non-empty run of decimal digits \<open>d\<close> and a text \<open>t\<close> that has no newline and is not blank.
  Then \<open>extract_skills\<close> returns the stripped texts, in the order of the lines, and only
  the first 10 of them: all of them for exactly 10 lines, which are the texts themselves
  when they carry no whitespace at their ends.
\<close>

theorem numbered_response_skills:
  assumes "length ds = length ts" and "ts \<noteq> []"
    and "\<forall>d \<in> set ds. d \<noteq> [] \<and> list_all isdecimal d"
    and "\<forall>t \<in> set ts. strip t \<noteq> [] \<and> NL \<notin> set t"
    and "sanitize_input jd \<noteq> []"
    and "svc (length (sent w)) (skills_prompt (sanitize_input jd)) =
           Text (join [NL] (map2 (\<lambda>d t. d @ lit ''. '' @ t) ds ts))"
  shows "fst (extract_skills svc jd w) = Inr (take 10 (map strip ts))"
proof -
  let ?ls = "map2 (\<lambda>d t. d @ [46, 32] @ t) ds ts"
  let ?r = "join [NL] ?ls"
  have ne: "?ls \<noteq> []" using assms(1,2) by (cases ds; cases ts) auto
  have sp: "split NL ?r = ?ls"
    using ne numbered_lines_plain [OF assms(1,3,4)] by (rule split_join)
  have rn: "?r \<noteq> []"
  proof
    assume "?r = []"
    with sp have "?ls = [[]]" by simp
    then show False using assms(1,2) by (cases ds; cases ts) auto
  qed
  have "scan_lines ?ls [] = take 10 (map strip ts)"
    unfolding scan_lines_take numbered_lines_matches [OF assms(1,3,4)]
    by (simp add: MAX_SKILLS_def)
  moreover have "take 10 (map strip ts) \<noteq> []" using assms(2) by simp
  ultimately show ?thesis
    using assms(5,6) sp rn
    by (simp add: extract_skills_def generate_content_def Let_def lit_period_space)
qed

theorem numbered_response_skills_witness:
  "fst (extract_skills
      (always (Text (join [NL]
         [lit ''1. SQL '', lit ''2. Git'', lit ''3. Go'', lit ''4. C'', lit ''5. R'',
          lit ''6. Java'', lit ''7. Rust'', lit ''8. Perl'', lit ''9. Lua'', lit ''10. Lisp'',
          lit ''11. Ada''])))
      (lit ''x'') quiet) =
   Inr [lit ''SQL'', lit ''Git'', lit ''Go'', lit ''C'', lit ''R'', lit ''Java'', lit ''Rust'',
        lit ''Perl'', lit ''Lua'', lit ''Lisp'']"
proof -
  let ?ds = "[lit ''1'', lit ''2'', lit ''3'', lit ''4'', lit ''5'', lit ''6'', lit ''7'',
              lit ''8'', lit ''9'', lit ''10'', lit ''11'']"
  let ?ts = "[lit ''SQL '', lit ''Git'', lit ''Go'', lit ''C'', lit ''R'', lit ''Java'',
              lit ''Rust'', lit ''Perl'', lit ''Lua'', lit ''Lisp'', lit ''Ada'']"
  let ?r = "join [NL] (map2 (\<lambda>d t. d @ lit ''. '' @ t) ?ds ?ts)"
  have a: "length ?ds = length ?ts" "?ts \<noteq> []" by simp_all
  have b: "\<forall>d \<in> set ?ds. d \<noteq> [] \<and> list_all isdecimal d"
    by (simp add: lit_def isdecimal_def decimal_zeros_def)
  have c: "\<forall>t \<in> set ?ts. strip t \<noteq> [] \<and> NL \<notin> set t"
    by (simp add: text_eval)
  have d: "sanitize_input (lit ''x'') \<noteq> []"
    by (simp add: sanitize_input_def text_eval)
  have e: "always (Text ?r) (length (sent quiet)) (skills_prompt (sanitize_input (lit ''x''))) =
             Text ?r"
    by (simp add: always_def)
  have r: "?r = join [NL]
         [lit ''1. SQL '', lit ''2. Git'', lit ''3. Go'', lit ''4. C'', lit ''5. R'',
          lit ''6. Java'', lit ''7. Rust'', lit ''8. Perl'', lit ''9. Lua'', lit ''10. Lisp'',
          lit ''11. Ada'']"
    by (simp add: lit_def)
  have s: "take 10 (map strip ?ts) =
      [lit ''SQL'', lit ''Git'', lit ''Go'', lit ''C'', lit ''R'', lit ''Java'', lit ''Rust'',
        lit ''Perl'', lit ''Lua'', lit ''Lisp'']"
    by (simp add: text_eval)
  show ?thesis
    using numbered_response_skills
      [where ds = ?ds and ts = ?ts and jd = "lit ''x''" and svc = "always (Text ?r)" and w = quiet,
       OF a b c d e]
    unfolding r s .
qed

text \<open>
  C1 as stated returns the text of each line as it stands.  In a response of exactly 10
  numbered lines whose first text is \<open>SQL\<close> followed by a space, the list returned is not
  the list of the 10 texts: the first skill is \<open>SQL\<close> without the space.
\<close>

theorem trailing_space_kept_counterexample:
  "fst (extract_skills
      (always (Text (join [NL]
         [lit ''1. SQL '', lit ''2. Git'', lit ''3. Go'', lit ''4. C'', lit ''5. R'',
          lit ''6. Java'', lit ''7. Rust'', lit ''8. Perl'', lit ''9. Lua'', lit ''10. Lisp''])))
      (lit ''x'') quiet) \<noteq>
   Inr [lit ''SQL '', lit ''Git'', lit ''Go'', lit ''C'', lit ''R'', lit ''Java'', lit ''Rust'',
        lit ''Perl'', lit ''Lua'', lit ''Lisp'']"
  by (simp add: run_eval text_eval)

section \<open>The page: generation and re-analysis\<close>

lemma generate_content_text: "generate_content svc p w = (Some t, w') \<Longrightarrow> t \<noteq> []"
  by (auto simp: generate_content_def Let_def split: response.splits if_splits)

lemma generate_custom_resume_text:
  "generate_custom_resume svc r j sel w = (Inr doc, w') \<Longrightarrow> doc \<noteq> []"
  by (auto simp: generate_custom_resume_def split: if_splits prod.splits option.splits
      dest: generate_content_text)

lemma generate_cover_letter_text:
  "generate_cover_letter svc r j sel c n w = (Inr doc, w') \<Longrightarrow> doc \<noteq> []"
  by (auto simp: generate_cover_letter_def split: if_splits prod.splits option.splits
      dest: generate_content_text)

lemma generate_resume_few:
  assumes "skills s = Some sk" "length (ticked (skill_box ui) sk) < 3"
  shows "generate_resume svc ui (s, w) =
           (s, st_warning (lit ''Please select at least 3 skills for best results'') w)"
  using assms by (simp add: generate_resume_def)

lemma generate_resume_enough:
  assumes "skills s = Some sk" "3 \<le> length (ticked (skill_box ui) sk)"
  shows "generate_resume svc ui (s, w) =
           (case generate_custom_resume svc (resume_text ui) (job_description ui)
                   (ticked (skill_box ui) sk) w of
              (Inl e, w') \<Rightarrow> (s, w')
            | (Inr doc, w') \<Rightarrow>
                (s\<lparr>custom_resume := Some doc, resume_generated := True,
                    selected_skills := Some (ticked (skill_box ui) sk)\<rparr>, w'))"
  using assms
  by (auto simp: generate_resume_def Let_def split: prod.splits sum.splits
      dest: generate_custom_resume_text)

lemma generate_cover_few:
  assumes "skills s = Some sk" "length (ticked (cover_letter_skill_box ui) sk) < 3"
  shows "generate_cover svc ui (s, w) =
           (s, st_warning (lit ''Please select at least 3 skills for best results'') w)"
  using assms by (simp add: generate_cover_def)

lemma generate_cover_enough:
  assumes "skills s = Some sk" "3 \<le> length (ticked (cover_letter_skill_box ui) sk)"
  shows "generate_cover svc ui (s, w) =
           (case generate_cover_letter svc (cover_letter_resume_text ui)
                   (cover_letter_job_description ui) (ticked (cover_letter_skill_box ui) sk)
                   (company_name ui) (recipient_name ui) w of
              (Inl e, w') \<Rightarrow> (s, w')
            | (Inr doc, w') \<Rightarrow>
                (s\<lparr>custom_cover_letter := Some doc, cover_letter_generated := True,
                    selected_skills := Some (ticked (cover_letter_skill_box ui) sk)\<rparr>, w'))"
  using assms
  by (auto simp: generate_cover_def Let_def split: prod.splits sum.splits
      dest: generate_cover_letter_text)

lemma main_ui_generate_resume:
  assumes "skills s = Some sk" "sk \<noteq> []" "clicked ui = GenerateResume"
  shows "main_ui svc ui (s, w) = generate_resume svc ui (s, w)"
proof -
  have r: "resume_tab svc ui (s, w) = generate_resume svc ui (s, w)"
    using assms by (simp add: resume_tab_def truthy_def)
  show ?thesis using assms(3) by (simp add: main_ui_def cover_letter_tab_def r)
qed

lemma main_ui_generate_cover:
  assumes "skills s = Some sk" "sk \<noteq> []" "clicked ui = GenerateCoverLetter"
  shows "main_ui svc ui (s, w) = generate_cover svc ui (s, w)"
  using assms by (simp add: main_ui_def cover_letter_tab_def resume_tab_def truthy_def)

text \<open>
  C7.  In a session that holds a skill list, pressing a generate button with fewer than 3
  skills ticked only shows a warning: the session is unchanged and nothing is sent to the
  service.  With 3 or more ticked, the run is the synthesis of the document from the
  inputs of the tab and the ticked skills: its result is stored, with the flag of the tab
  and the selection, when it succeeds, and the session is unchanged when it fails.  The
  same holds in the cover-letter tab.
\<close>

theorem generation_needs_three_skills:
  assumes "skills s = Some sk" and "sk \<noteq> []"
  shows
    "(clicked ui = GenerateResume \<and> length (ticked (skill_box ui) sk) < 3 \<longrightarrow>
        main_ui svc ui (s, w) =
          (s, st_warning (lit ''Please select at least 3 skills for best results'') w)) \<and>
     (clicked ui = GenerateResume \<and> 3 \<le> length (ticked (skill_box ui) sk) \<longrightarrow>
        main_ui svc ui (s, w) =
          (case generate_custom_resume svc (resume_text ui) (job_description ui)
                  (ticked (skill_box ui) sk) w of
             (Inl e, w') \<Rightarrow> (s, w')
           | (Inr doc, w') \<Rightarrow>
               (s\<lparr>custom_resume := Some doc, resume_generated := True,
                   selected_skills := Some (ticked (skill_box ui) sk)\<rparr>, w'))) \<and>
     (clicked ui = GenerateCoverLetter \<and> length (ticked (cover_letter_skill_box ui) sk) < 3 \<longrightarrow>
        main_ui svc ui (s, w) =
          (s, st_warning (lit ''Please select at least 3 skills for best results'') w)) \<and>
     (clicked ui = GenerateCoverLetter \<and> 3 \<le> length (ticked (cover_letter_skill_box ui) sk) \<longrightarrow>
        main_ui svc ui (s, w) =
          (case generate_cover_letter svc (cover_letter_resume_text ui)
                  (cover_letter_job_description ui) (ticked (cover_letter_skill_box ui) sk)
                  (company_name ui) (recipient_name ui) w of
             (Inl e, w') \<Rightarrow> (s, w')
           | (Inr doc, w') \<Rightarrow>
               (s\<lparr>custom_cover_letter := Some doc, cover_letter_generated := True,
                   selected_skills := Some (ticked (cover_letter_skill_box ui) sk)\<rparr>, w')))"
proof (intro conjI impI)
  assume "clicked ui = GenerateResume \<and> length (ticked (skill_box ui) sk) < 3"
  then show "main_ui svc ui (s, w) =
          (s, st_warning (lit ''Please select at least 3 skills for best results'') w)"
    using assms by (simp add: main_ui_generate_resume generate_resume_few)
next
  assume "clicked ui = GenerateResume \<and> 3 \<le> length (ticked (skill_box ui) sk)"
  then show "main_ui svc ui (s, w) =
          (case generate_custom_resume svc (resume_text ui) (job_description ui)
                  (ticked (skill_box ui) sk) w of
             (Inl e, w') \<Rightarrow> (s, w')
           | (Inr doc, w') \<Rightarrow>
               (s\<lparr>custom_resume := Some doc, resume_generated := True,
                   selected_skills := Some (ticked (skill_box ui) sk)\<rparr>, w'))"
    using assms main_ui_generate_resume [of s sk ui svc w] generate_resume_enough [of s sk ui svc w]
    by simp
next
  assume "clicked ui = GenerateCoverLetter \<and> length (ticked (cover_letter_skill_box ui) sk) < 3"
  then show "main_ui svc ui (s, w) =
          (s, st_warning (lit ''Please select at least 3 skills for best results'') w)"
    using assms by (simp add: main_ui_generate_cover generate_cover_few)
next
  assume "clicked ui = GenerateCoverLetter \<and> 3 \<le> length (ticked (cover_letter_skill_box ui) sk)"
  then show "main_ui svc ui (s, w) =
          (case generate_cover_letter svc (cover_letter_resume_text ui)
                  (cover_letter_job_description ui) (ticked (cover_letter_skill_box ui) sk)
                  (company_name ui) (recipient_name ui) w of
             (Inl e, w') \<Rightarrow> (s, w')
           | (Inr doc, w') \<Rightarrow>
               (s\<lparr>custom_cover_letter := Some doc, cover_letter_generated := True,
                   selected_skills := Some (ticked (cover_letter_skill_box ui) sk)\<rparr>, w'))"
    using assms main_ui_generate_cover [of s sk ui svc w] generate_cover_enough [of s sk ui svc w]
    by simp
qed

lemmas page_eval =
  main_ui_def resume_tab_def cover_letter_tab_def analyze_resume_def analyze_cover_letter_def
  generate_resume_def generate_cover_def truthy_def ticked_def returned_def st_warning_def
  st_error_def filled_form_def checked_below_def fresh_def scripted_def
  generate_custom_resume_def generate_cover_letter_def

lemma extract_skills_ok:
  assumes "extract_skills svc jd w = (Inr new, w')"
  shows "jd \<noteq> [] \<and> new \<noteq> []"
  using assms
  by (auto simp: extract_skills_def sanitize_input_def Let_def
      split: if_splits prod.splits option.splits)

lemma extract_skills_Inr_nonempty: "extract_skills svc jd w = (Inr new, w') \<Longrightarrow> new \<noteq> []"
  using extract_skills_ok by blast

lemma analyze_resume_run:
  assumes "resume_text ui \<noteq> []" "job_description ui \<noteq> []"
  shows "analyze_resume svc ui (s, w) =
    (case extract_skills svc (job_description ui) w of
       (Inr new, w') \<Rightarrow> (s\<lparr>skills := Some new, resume_generated := False\<rparr>, w')
     | (Inl e, w') \<Rightarrow>
         (s\<lparr>skills := None\<rparr>, st_error (lit ''Failed to extract skills. Please try again.'') w'))"
  using assms
  by (auto simp: analyze_resume_def truthy_def returned_def Let_def
      split: prod.splits sum.splits dest: extract_skills_Inr_nonempty)

lemma analyze_cover_letter_run:
  assumes "cover_letter_resume_text ui \<noteq> []" "cover_letter_job_description ui \<noteq> []"
    "company_name ui \<noteq> []" "recipient_name ui \<noteq> []"
  shows "analyze_cover_letter svc ui (s, w) =
    (case extract_skills svc (cover_letter_job_description ui) w of
       (Inr new, w') \<Rightarrow> (s\<lparr>skills := Some new, cover_letter_generated := False\<rparr>, w')
     | (Inl e, w') \<Rightarrow>
         (s\<lparr>skills := None\<rparr>, st_error (lit ''Failed to extract skills. Please try again.'') w'))"
  using assms
  by (auto simp: analyze_cover_letter_def truthy_def returned_def Let_def
      split: prod.splits sum.splits dest: extract_skills_Inr_nonempty)

lemma main_ui_analyze_resume:
  "clicked ui = AnalyzeResume \<Longrightarrow> main_ui svc ui (s, w) = analyze_resume svc ui (s, w)"
  by (simp add: main_ui_def resume_tab_def cover_letter_tab_def)

lemma main_ui_analyze_cover_letter:
  "clicked ui = AnalyzeCoverLetter \<Longrightarrow>
     main_ui svc ui (s, w) = analyze_cover_letter svc ui (s, w)"
  by (simp add: main_ui_def resume_tab_def cover_letter_tab_def)

lemma analyze_resume_keeps:
  "selected_skills (fst (analyze_resume svc ui (s, w))) = selected_skills s \<and>
   custom_resume (fst (analyze_resume svc ui (s, w))) = custom_resume s \<and>
   custom_cover_letter (fst (analyze_resume svc ui (s, w))) = custom_cover_letter s \<and>
   cover_letter_generated (fst (analyze_resume svc ui (s, w))) = cover_letter_generated s"
  by (simp add: analyze_resume_def Let_def split: prod.splits)

lemma analyze_cover_letter_keeps:
  "selected_skills (fst (analyze_cover_letter svc ui (s, w))) = selected_skills s \<and>
   custom_resume (fst (analyze_cover_letter svc ui (s, w))) = custom_resume s \<and>
   custom_cover_letter (fst (analyze_cover_letter svc ui (s, w))) = custom_cover_letter s \<and>
   resume_generated (fst (analyze_cover_letter svc ui (s, w))) = resume_generated s"
  by (simp add: analyze_cover_letter_def Let_def split: prod.splits)

text \<open>
  C8, as amended.  A run that analyses a job description, the inputs of its tab being
  filled in, discards the previous skill list: the session holds the new list when the
  extraction succeeds and no list when it fails.  When it succeeds the flag of that tab
  is reset, which hides the document of the tab; when it fails the flag stays as it was
  and an error is shown.  With an input missing the run only shows a warning.  In every
  case the stored selection and both stored documents are as before, and so is the flag
  of the other tab.
\<close>

theorem analysis_discards_skill_list:
  "(clicked ui = AnalyzeResume \<and> resume_text ui \<noteq> [] \<and> job_description ui \<noteq> [] \<longrightarrow>
      main_ui svc ui (s, w) =
        (case extract_skills svc (job_description ui) w of
           (Inr new, w') \<Rightarrow> (s\<lparr>skills := Some new, resume_generated := False\<rparr>, w')
         | (Inl e, w') \<Rightarrow>
             (s\<lparr>skills := None\<rparr>,
              st_error (lit ''Failed to extract skills. Please try again.'') w'))) \<and>
   (clicked ui = AnalyzeResume \<and> (resume_text ui = [] \<or> job_description ui = []) \<longrightarrow>
      main_ui svc ui (s, w) =
        (s, st_warning (lit ''Please provide both resume and job description'') w)) \<and>
   (clicked ui = AnalyzeCoverLetter \<and> cover_letter_resume_text ui \<noteq> [] \<and>
    cover_letter_job_description ui \<noteq> [] \<and> company_name ui \<noteq> [] \<and> recipient_name ui \<noteq> [] \<longrightarrow>
      main_ui svc ui (s, w) =
        (case extract_skills svc (cover_letter_job_description ui) w of
           (Inr new, w') \<Rightarrow> (s\<lparr>skills := Some new, cover_letter_generated := False\<rparr>, w')
         | (Inl e, w') \<Rightarrow>
             (s\<lparr>skills := None\<rparr>,
              st_error (lit ''Failed to extract skills. Please try again.'') w'))) \<and>
   (clicked ui = AnalyzeCoverLetter \<and>
    (cover_letter_resume_text ui = [] \<or> cover_letter_job_description ui = [] \<or>
     company_name ui = [] \<or> recipient_name ui = []) \<longrightarrow>
      main_ui svc ui (s, w) = (s, st_warning (lit ''Please provide all required information'') w)) \<and>
   (clicked ui = AnalyzeResume \<or> clicked ui = AnalyzeCoverLetter \<longrightarrow>
      selected_skills (fst (main_ui svc ui (s, w))) = selected_skills s \<and>
      custom_resume (fst (main_ui svc ui (s, w))) = custom_resume s \<and>
      custom_cover_letter (fst (main_ui svc ui (s, w))) = custom_cover_letter s) \<and>
   (clicked ui = AnalyzeResume \<longrightarrow>
      cover_letter_generated (fst (main_ui svc ui (s, w))) = cover_letter_generated s) \<and>
   (clicked ui = AnalyzeCoverLetter \<longrightarrow>
      resume_generated (fst (main_ui svc ui (s, w))) = resume_generated s)"
proof (intro conjI impI)
  assume "clicked ui = AnalyzeResume \<and> resume_text ui \<noteq> [] \<and> job_description ui \<noteq> []"
  then show "main_ui svc ui (s, w) =
        (case extract_skills svc (job_description ui) w of
           (Inr new, w') \<Rightarrow> (s\<lparr>skills := Some new, resume_generated := False\<rparr>, w')
         | (Inl e, w') \<Rightarrow>
             (s\<lparr>skills := None\<rparr>,
              st_error (lit ''Failed to extract skills. Please try again.'') w'))"
    by (simp add: main_ui_analyze_resume analyze_resume_run)
next
  assume "clicked ui = AnalyzeResume \<and> (resume_text ui = [] \<or> job_description ui = [])"
  then show "main_ui svc ui (s, w) =
        (s, st_warning (lit ''Please provide both resume and job description'') w)"
    by (auto simp: main_ui_analyze_resume analyze_resume_def)
next
  assume "clicked ui = AnalyzeCoverLetter \<and> cover_letter_resume_text ui \<noteq> [] \<and>
    cover_letter_job_description ui \<noteq> [] \<and> company_name ui \<noteq> [] \<and> recipient_name ui \<noteq> []"
  then show "main_ui svc ui (s, w) =
        (case extract_skills svc (cover_letter_job_description ui) w of
           (Inr new, w') \<Rightarrow> (s\<lparr>skills := Some new, cover_letter_generated := False\<rparr>, w')
         | (Inl e, w') \<Rightarrow>
             (s\<lparr>skills := None\<rparr>,
              st_error (lit ''Failed to extract skills. Please try again.'') w'))"
    by (simp add: main_ui_analyze_cover_letter analyze_cover_letter_run)
next
  assume "clicked ui = AnalyzeCoverLetter \<and>
    (cover_letter_resume_text ui = [] \<or> cover_letter_job_description ui = [] \<or>
     company_name ui = [] \<or> recipient_name ui = [])"
  then show "main_ui svc ui (s, w) =
        (s, st_warning (lit ''Please provide all required information'') w)"
    by (auto simp: main_ui_analyze_cover_letter analyze_cover_letter_def)
next
  assume c: "clicked ui = AnalyzeResume \<or> clicked ui = AnalyzeCoverLetter"
  then show "selected_skills (fst (main_ui svc ui (s, w))) = selected_skills s"
    "custom_resume (fst (main_ui svc ui (s, w))) = custom_resume s"
    "custom_cover_letter (fst (main_ui svc ui (s, w))) = custom_cover_letter s"
    using analyze_resume_keeps [of svc ui s w] analyze_cover_letter_keeps [of svc ui s w]
    by (auto simp: main_ui_analyze_resume main_ui_analyze_cover_letter)
next
  assume "clicked ui = AnalyzeResume"
  then show "cover_letter_generated (fst (main_ui svc ui (s, w))) = cover_letter_generated s"
    using analyze_resume_keeps [of svc ui s w] by (simp add: main_ui_analyze_resume)
next
  assume "clicked ui = AnalyzeCoverLetter"
  then show "resume_generated (fst (main_ui svc ui (s, w))) = resume_generated s"
    using analyze_cover_letter_keeps [of svc ui s w] by (simp add: main_ui_analyze_cover_letter)
qed

text \<open>
  C8 as stated has the previous selection cleared.  After analysis, generation and a
  second analysis, the session holds the new skill list and the flag is reset, but
  \<open>selected_skills\<close> is still the selection of the first generation, three skills that are
  not in the new list, and the generated resume is still stored.
\<close>

theorem selection_survives_reanalysis:
  "skills (fst reanalysed) = Some [lit ''Ada'', lit ''Lua'', lit ''Perl''] \<and>
   resume_generated (fst reanalysed) = False \<and>
   selected_skills (fst reanalysed) = Some [lit ''SQL'', lit ''Git'', lit ''Go''] \<and>
   custom_resume (fst reanalysed) = Some (lit ''CV'')"
  by (simp add: reanalysed_def page_eval run_eval text_eval Let_def)

theorem generation_needs_three_skills_witness:
  "main_ui (always (Text (lit ''CV''))) (filled_form GenerateResume (lit ''job'') 2) (listed, quiet) =
     (listed, st_warning (lit ''Please select at least 3 skills for best results'') quiet) \<and>
   fst (main_ui (always (Text (lit ''CV''))) (filled_form GenerateResume (lit ''job'') 3)
          (listed, quiet)) =
     listed\<lparr>custom_resume := Some (lit ''CV''), resume_generated := True,
            selected_skills := Some [lit ''SQL'', lit ''Git'', lit ''Go'']\<rparr> \<and>
   main_ui (always (Text (lit ''CV''))) (filled_form GenerateCoverLetter (lit ''job'') 2)
       (listed, quiet) =
     (listed, st_warning (lit ''Please select at least 3 skills for best results'') quiet) \<and>
   fst (main_ui (always (Text (lit ''CV''))) (filled_form GenerateCoverLetter (lit ''job'') 3)
          (listed, quiet)) =
     listed\<lparr>custom_cover_letter := Some (lit ''CV''), cover_letter_generated := True,
            selected_skills := Some [lit ''SQL'', lit ''Git'', lit ''Go'']\<rparr>"
proof -
  let ?sk = "[lit ''SQL'', lit ''Git'', lit ''Go'', lit ''C'']"
  have a: "skills listed = Some ?sk" "?sk \<noteq> []" by (simp_all add: listed_def)
  have t2: "ticked (checked_below 2) ?sk = [lit ''SQL'', lit ''Git'']"
    and t3: "ticked (checked_below 3) ?sk = [lit ''SQL'', lit ''Git'', lit ''Go'']"
    by (simp_all add: ticked_def checked_below_def)
  have n: "lit ''cv'' \<noteq> []" "lit ''job'' \<noteq> []" "lit ''CV'' \<noteq> []" "lit ''Acme'' \<noteq> []"
    "lit ''Kim'' \<noteq> []"
    by (simp_all add: lit_def)
  note g = generation_needs_three_skills [OF a, of _ "always (Text (lit ''CV''))" quiet]
  show ?thesis
    using g [of "filled_form GenerateResume (lit ''job'') 2"]
      g [of "filled_form GenerateResume (lit ''job'') 3"]
      g [of "filled_form GenerateCoverLetter (lit ''job'') 2"]
      g [of "filled_form GenerateCoverLetter (lit ''job'') 3"]
    by (simp add: filled_form_def t2 t3 n generate_custom_resume_def generate_cover_letter_def
        generate_content_def always_def)
qed

theorem analysis_discards_skill_list_witness:
  "fst (main_ui (always (Text (join [NL] [lit ''1. Ada'', lit ''2. Lua'', lit ''3. Perl''])))
          (filled_form AnalyzeResume (lit ''new job'') 5) (tailored, quiet)) =
     tailored\<lparr>skills := Some [lit ''Ada'', lit ''Lua'', lit ''Perl''], resume_generated := False\<rparr> \<and>
   fst (main_ui (always (Text (lit ''No list.'')))
          (filled_form AnalyzeResume (lit ''new job'') 5) (tailored, quiet)) =
     tailored\<lparr>skills := None\<rparr> \<and>
   main_ui (always (Text (lit ''No list.''))) (filled_form AnalyzeResume [] 5) (tailored, quiet) =
     (tailored, st_warning (lit ''Please provide both resume and job description'') quiet) \<and>
   fst (main_ui (always (Text (join [NL] [lit ''1. Ada'', lit ''2. Lua'', lit ''3. Perl''])))
          (filled_form AnalyzeCoverLetter (lit ''new job'') 5) (tailored, quiet)) =
     tailored\<lparr>skills := Some [lit ''Ada'', lit ''Lua'', lit ''Perl''],
              cover_letter_generated := False\<rparr> \<and>
   fst (main_ui (always (Text (lit ''No list.'')))
          (filled_form AnalyzeCoverLetter (lit ''new job'') 5) (tailored, quiet)) =
     tailored\<lparr>skills := None\<rparr> \<and>
   main_ui (always (Text (lit ''No list.''))) (filled_form AnalyzeCoverLetter [] 5)
       (tailored, quiet) =
     (tailored, st_warning (lit ''Please provide all required information'') quiet) \<and>
   selected_skills (fst (main_ui (always (Text (lit ''No list.'')))
          (filled_form AnalyzeResume (lit ''new job'') 5) (tailored, quiet))) =
     Some [lit ''SQL'', lit ''Git'', lit ''Go''] \<and>
   resume_generated (fst (main_ui (always (Text (lit ''No list.'')))
          (filled_form AnalyzeResume (lit ''new job'') 5) (tailored, quiet))) = True"
proof -
  let ?ok = "always (Text (join [NL] [lit ''1. Ada'', lit ''2. Lua'', lit ''3. Perl'']))"
  let ?no = "always (Text (lit ''No list.''))"
  let ?new = "[lit ''Ada'', lit ''Lua'', lit ''Perl'']"
  have "fst (extract_skills ?ok (lit ''new job'') quiet) = Inr ?new"
    by (simp add: run_eval text_eval)
  then obtain w1 where ok: "extract_skills ?ok (lit ''new job'') quiet = (Inr ?new, w1)"
    by (cases "extract_skills ?ok (lit ''new job'') quiet") simp
  have "fst (extract_skills ?no (lit ''new job'') quiet) = Inl NoSkillsFound"
    by (simp add: run_eval text_eval)
  then obtain w2 where no: "extract_skills ?no (lit ''new job'') quiet = (Inl NoSkillsFound, w2)"
    by (cases "extract_skills ?no (lit ''new job'') quiet") simp
  have n: "lit ''cv'' \<noteq> []" "lit ''Acme'' \<noteq> []" "lit ''Kim'' \<noteq> []" "lit ''new job'' \<noteq> []"
    by (simp_all add: lit_def)
  note t = analysis_discards_skill_list [where s = tailored and w = quiet]
  show ?thesis
    using t [where svc = ?ok and ui = "filled_form AnalyzeResume (lit ''new job'') 5"]
      t [where svc = ?no and ui = "filled_form AnalyzeResume (lit ''new job'') 5"]
      t [where svc = ?no and ui = "filled_form AnalyzeResume [] 5"]
      t [where svc = ?ok and ui = "filled_form AnalyzeCoverLetter (lit ''new job'') 5"]
      t [where svc = ?no and ui = "filled_form AnalyzeCoverLetter (lit ''new job'') 5"]
      t [where svc = ?no and ui = "filled_form AnalyzeCoverLetter [] 5"]
    by (simp add: filled_form_def n ok no tailored_def listed_def fresh_def del: join.simps)
qed

end
